theory Spec2Isabelle
  imports Main "HOL-Library.Sublist"
begin

section \<open>Python strings\<close>

text \<open>
  A Python \<open>str\<close> is modelled as a \<open>string\<close>, every \<open>char\<close> standing for one code
  point below 256, so that \<open>length\<close> is Python's \<open>len\<close> and \<open>take n\<close> is the slice
  \<open>[:n]\<close>. An \<open>Optional[str]\<close> is a \<open>string option\<close>; \<open>falsy\<close> is Python's \<open>not v\<close> on
  it: \<open>None\<close> and the empty string.
\<close>

fun falsy :: "string option \<Rightarrow> bool" where
  "falsy None = True"
| "falsy (Some s) = (s = [])"

definition isspace :: "char \<Rightarrow> bool" where
  "isspace c =
     (let n = (of_char c :: nat)
      in (9 \<le> n \<and> n \<le> 13) \<or> (28 \<le> n \<and> n \<le> 32) \<or> n = 133 \<or> n = 160)"

definition lower_char :: "char \<Rightarrow> char" where
  "lower_char c =
     (let n = (of_char c :: nat)
      in if (65 \<le> n \<and> n \<le> 90) \<or> (192 \<le> n \<and> n \<le> 214) \<or> (216 \<le> n \<and> n \<le> 222)
         then char_of (n + 32) else c)"

definition lower :: "string \<Rightarrow> string" where
  "lower s = map lower_char s"

text \<open>\<open>s.strip()\<close>: leading and trailing whitespace removed.\<close>

definition strip :: "string \<Rightarrow> string" where
  "strip s = rev (dropWhile isspace (rev (dropWhile isspace s)))"

text \<open>
  \<open>s.split()\<close>: the maximal runs of non-whitespace characters, in order. \<open>cur\<close> is the
  token being read.
\<close>

fun split_from :: "string \<Rightarrow> string \<Rightarrow> string list" where
  "split_from cur [] = (if cur = [] then [] else [cur])"
| "split_from cur (c # cs) =
     (if isspace c
      then (if cur = [] then split_from [] cs else cur # split_from [] cs)
      else split_from (cur @ [c]) cs)"

definition split :: "string \<Rightarrow> string list" where
  "split s = split_from [] s"

text \<open>\<open>sep.join(parts)\<close>.\<close>

fun join :: "string \<Rightarrow> string list \<Rightarrow> string" where
  "join sep [] = []"
| "join sep [p] = p"
| "join sep (p # q # ps) = p @ sep @ join sep (q # ps)"

text \<open>\<open>keyword in text\<close>: \<open>keyword\<close> occurs as a contiguous run of \<open>text\<close>.\<close>

fun contains :: "string \<Rightarrow> string \<Rightarrow> bool" where
  "contains [] keyword = (keyword = [])"
| "contains (c # cs) keyword = (prefix keyword (c # cs) \<or> contains cs keyword)"

section \<open>models.py, config.py\<close>

text \<open>
  A \<open>datetime\<close> is either naive (no \<open>tzinfo\<close>) or aware. A naive value is given by its
  distance from \<open>datetime.min\<close>, an aware one by its position on the UTC time line.
  Python orders two naive values and two aware values by these numbers, and raises
  \<open>TypeError\<close> when a naive value is compared with an aware one.
\<close>

datatype datetime = Naive nat | Aware int

definition datetime_min :: datetime where
  "datetime_min = Naive 0"

fun is_aware :: "datetime \<Rightarrow> bool" where
  "is_aware (Naive n) = False"
| "is_aware (Aware i) = True"

fun instant :: "datetime \<Rightarrow> int" where
  "instant (Naive n) = int n"
| "instant (Aware i) = i"

datatype exn =
  RequestException | JSONDecodeError | OSError | UnicodeDecodeError | TypeError | AttributeError

text \<open>
  The dataclass annotates \<open>source\<close> as \<open>str\<close>; \<open>NewsAPIFetcher\<close> stores \<open>None\<close> there when
  the name of the source is null, so the field is optional here.
\<close>

record Article =
  title :: string
  url :: string
  source :: "string option"
  published_at :: "datetime option"
  summary :: "string option"
  content :: "string option"
  author :: "string option"
  id_of :: string

definition primary_text :: "Article \<Rightarrow> string option" where
  "primary_text a = (if falsy (content a) then summary a else content a)"

text \<open>A \<open>Path\<close> is the list of its components; \<open>p.parent\<close> is \<open>butlast p\<close>.\<close>

type_synonym path = "string list"

record Config =
  newsapi_key :: "string option"
  data_dir :: path
  digest_dir :: path
  state_file :: path
  query :: string
  language :: string
  max_articles :: int
  digest_date :: datetime

section \<open>Libraries and the network\<close>

text \<open>
  What the code takes from libraries is a parameter of the model: the SHA-256 hex digest,
  \<open>dateutil\<close>'s parser (\<open>None\<close> where it raises \<open>ValueError\<close>, \<open>TypeError\<close> or
  \<open>OverflowError\<close>), BeautifulSoup's \<open>get_text\<close> of an HTML fragment, the Sumy pipeline
  of \<open>summarize_text\<close> (parser, tokenizer, stemmer, stop words and \<open>LsaSummarizer\<close>: for a
  text and a sentence count the selected sentences, each as its \<open>str\<close>), and
  \<open>strftime("paypal-digest-%Y-%m-%d.md")\<close>.
\<close>

type_synonym summarizer = "string \<Rightarrow> nat \<Rightarrow> string list"

record externals =
  sha256_hexdigest :: "string \<Rightarrow> string"
  dateutil_parse :: "string \<Rightarrow> datetime option"
  html_get_text :: "string \<Rightarrow> string"
  lsa_summarize :: summarizer
  strftime_digest :: "datetime \<Rightarrow> string"

text \<open>
  \<open>requests.get\<close> followed by \<open>raise_for_status\<close>: \<open>RequestFailed\<close> when either raises
  a \<open>requests.RequestException\<close> (no connection, a timeout, a 4xx or 5xx status such as
  401), \<open>Response b\<close> with what the code reads from the body otherwise.
\<close>

datatype 'a response = RequestFailed | Response 'a

text \<open>
  The JSON of the NewsAPI answer, by what the code does with it. The values under the
  keys \<open>title\<close>, \<open>url\<close>, \<open>content\<close>, \<open>description\<close>, \<open>publishedAt\<close>, \<open>author\<close> and
  \<open>name\<close> are strings or null; for the first six \<open>None\<close> stands for an absent key and
  for null, which \<open>item.get\<close> does not tell apart.

  Under \<open>source\<close>: no key, a value that is no object (null, or any other value without
  \<open>get\<close>), or an object, whose \<open>name\<close> is absent, null or a string.
\<close>

datatype json_name = NameAbsent | NameNull | Name string

datatype json_source = SourceAbsent | SourceNotObject | SourceObject json_name

record newsapi_item =
  na_title :: "string option"
  na_url :: "string option"
  na_content :: "string option"
  na_description :: "string option"
  na_publishedAt :: "string option"
  na_source :: json_source
  na_author :: "string option"

text \<open>An element of \<open>articles\<close>: an object, or a value that is none and has no \<open>get\<close>.\<close>

datatype newsapi_entry = NotObject | Item newsapi_item

text \<open>
  Under \<open>articles\<close>: no key, a value that cannot be iterated (null, a number, a boolean),
  or a list. A string or an object there is iterated as its characters or its keys, which
  are elements that are no objects.
\<close>

datatype newsapi_articles = ArticlesAbsent | NotIterable | Articles "newsapi_entry list"

text \<open>
  The body: \<open>NotJson\<close> when \<open>response.json()\<close> raises; \<open>NonObject\<close> when the JSON is a
  list, a string, a number, a boolean or null, which have no \<open>get\<close>; otherwise an object.
\<close>

datatype newsapi_body = NotJson | NonObject | Payload newsapi_articles

text \<open>An entry of the parsed feed, by the keys the code reads (\<open>None\<close>: key absent).\<close>

record feed_entry =
  fe_title :: "string option"
  fe_link :: "string option"
  fe_summary :: "string option"
  fe_published :: "string option"
  fe_source_title :: "string option"

text \<open>
  An \<open>article.post\<close> element of the PYMNTS page: the stripped text and the \<open>href\<close> of its
  \<open>h2.entry-title a\<close>, the stripped text of its \<open>div.entry-excerpt p\<close>, and the
  \<open>datetime\<close> attribute of its first \<open>time\<close> element.
\<close>

record card =
  card_header :: "(string \<times> string option) option"
  card_excerpt :: "string option"
  card_datetime :: "string option"

text \<open>
  One run's network: the answers of the three sources, and for every URL the answer of
  the page behind it as the stripped texts of its \<open>p\<close> elements, the same each time
  the URL is requested within the run.
\<close>

record network =
  newsapi_response :: "newsapi_body response"
  google_response :: "feed_entry list response"
  pymnts_response :: "card list response"
  page_response :: "string \<Rightarrow> string list response"

section \<open>summarizer.py\<close>

text \<open>
  The library is taken to return its sentences; an exception raised inside it would
  leave \<open>summarize_text\<close> uncaught and is not modelled.
\<close>

definition summarize_text :: "summarizer \<Rightarrow> string \<Rightarrow> nat \<Rightarrow> string" where
  "summarize_text lsa text sentence_count =
     (let sentences = lsa text sentence_count;
          summary = strip (join '' '' sentences)
      in if summary = [] then join '' '' (take 60 (split text)) else summary)"

section \<open>fetchers.py\<close>

definition canonical_id :: "externals \<Rightarrow> string list \<Rightarrow> string" where
  "canonical_id ex parts = sha256_hexdigest ex (join ''::'' parts)"

definition parse_datetime :: "externals \<Rightarrow> string option \<Rightarrow> datetime option" where
  "parse_datetime ex v =
     (case v of
        None \<Rightarrow> None
      | Some s \<Rightarrow> if s = [] then None else dateutil_parse ex s)"

text \<open>
  The body of each fetcher's loop gives \<open>None\<close> where the source says \<open>continue\<close> and the
  appended article otherwise; that of \<open>NewsAPIFetcher\<close> can also raise.
\<close>

text \<open>
  \<open>item.get("source", {}).get("name", "NewsAPI")\<close>: the default stands for an absent key
  only; a null name is \<open>None\<close>, and a source without \<open>get\<close> raises \<open>AttributeError\<close>.
\<close>

fun source_name :: "json_source \<Rightarrow> exn + string option" where
  "source_name SourceAbsent = Inr (Some ''NewsAPI'')"
| "source_name SourceNotObject = Inl AttributeError"
| "source_name (SourceObject NameAbsent) = Inr (Some ''NewsAPI'')"
| "source_name (SourceObject NameNull) = Inr None"
| "source_name (SourceObject (Name n)) = Inr (Some n)"

definition NewsAPIFetcher_article :: "externals \<Rightarrow> newsapi_entry \<Rightarrow> exn + Article option" where
  "NewsAPIFetcher_article ex entry =
     (case entry of
        NotObject \<Rightarrow> Inl AttributeError
      | Item item \<Rightarrow>
          (case (na_title item, na_url item) of
             (Some t, Some u) \<Rightarrow>
               if t = [] \<or> u = [] then Inr None
               else (case source_name (na_source item) of
                       Inl e \<Rightarrow> Inl e
                     | Inr name \<Rightarrow>
                         Inr (Some \<lparr>title = t, url = u,
                                source = name,
                                published_at = parse_datetime ex (na_publishedAt item),
                                summary = na_description item,
                                content = na_content item,
                                author = na_author item,
                                id_of = canonical_id ex [''newsapi'', u]\<rparr>))
           | _ \<Rightarrow> Inr None))"

text \<open>The loop over the articles stops at the first element that raises.\<close>

fun NewsAPIFetcher_loop :: "externals \<Rightarrow> newsapi_entry list \<Rightarrow> exn + Article list" where
  "NewsAPIFetcher_loop ex [] = Inr []"
| "NewsAPIFetcher_loop ex (entry # rest) =
     (case NewsAPIFetcher_article ex entry of
        Inl e \<Rightarrow> Inl e
      | Inr appended \<Rightarrow>
          (case NewsAPIFetcher_loop ex rest of
             Inl e \<Rightarrow> Inl e
           | Inr articles \<Rightarrow>
               Inr (case appended of None \<Rightarrow> articles | Some article \<Rightarrow> article # articles)))"

definition NewsAPIFetcher_fetch ::
  "externals \<Rightarrow> newsapi_body response \<Rightarrow> Config \<Rightarrow> exn + Article list" where
  "NewsAPIFetcher_fetch ex resp config =
     (if falsy (newsapi_key config) then Inr []
      else case resp of
             RequestFailed \<Rightarrow> Inr []
           | Response body \<Rightarrow>
               (case body of
                  NotJson \<Rightarrow> Inl JSONDecodeError
                | NonObject \<Rightarrow> Inl AttributeError
                | Payload ArticlesAbsent \<Rightarrow> Inr []
                | Payload NotIterable \<Rightarrow> Inl TypeError
                | Payload (Articles entries) \<Rightarrow> NewsAPIFetcher_loop ex entries))"

definition GoogleNewsFetcher_article :: "externals \<Rightarrow> feed_entry \<Rightarrow> Article option" where
  "GoogleNewsFetcher_article ex entry =
     (case (fe_title entry, fe_link entry) of
        (Some t, Some l) \<Rightarrow>
          if t = [] \<or> l = [] then None
          else Some \<lparr>title = t, url = l,
                 source =
                   Some (case fe_source_title entry of None \<Rightarrow> ''Google News'' | Some n \<Rightarrow> n),
                 published_at =
                   (case fe_published entry of
                      None \<Rightarrow> None
                    | Some p \<Rightarrow> parse_datetime ex (Some p)),
                 summary =
                   Some (html_get_text ex (case fe_summary entry of None \<Rightarrow> [] | Some s \<Rightarrow> s)),
                 content = None,
                 author = None,
                 id_of = canonical_id ex [''google_news'', l]\<rparr>
      | _ \<Rightarrow> None)"

definition GoogleNewsFetcher_fetch ::
  "externals \<Rightarrow> feed_entry list response \<Rightarrow> Config \<Rightarrow> exn + Article list" where
  "GoogleNewsFetcher_fetch ex resp config =
     (case resp of
        RequestFailed \<Rightarrow> Inr []
      | Response entries \<Rightarrow> Inr (List.map_filter (GoogleNewsFetcher_article ex) entries))"

definition PYMNTSFetcher_article :: "externals \<Rightarrow> card \<Rightarrow> Article option" where
  "PYMNTSFetcher_article ex c =
     (case card_header c of
        Some (t, Some l) \<Rightarrow>
          if t = [] \<or> l = [] then None
          else Some \<lparr>title = t, url = l,
                 source = Some ''PYMNTS'',
                 published_at =
                   (case card_datetime c of
                      None \<Rightarrow> None
                    | Some d \<Rightarrow> parse_datetime ex (Some d)),
                 summary = card_excerpt c,
                 content = None,
                 author = None,
                 id_of = canonical_id ex [''pymnts'', l]\<rparr>
      | _ \<Rightarrow> None)"

definition PYMNTSFetcher_fetch ::
  "externals \<Rightarrow> card list response \<Rightarrow> Config \<Rightarrow> exn + Article list" where
  "PYMNTSFetcher_fetch ex resp config =
     (case resp of
        RequestFailed \<Rightarrow> Inr []
      | Response cards \<Rightarrow> Inr (List.map_filter (PYMNTSFetcher_article ex) cards))"

text \<open>
  A fetcher is its \<open>fetch\<close> method: from the configuration to the articles, or to the
  exception it raises.
\<close>

type_synonym fetcher = "Config \<Rightarrow> exn + Article list"

definition default_fetchers :: "externals \<Rightarrow> network \<Rightarrow> fetcher list" where
  "default_fetchers ex net =
     [NewsAPIFetcher_fetch ex (newsapi_response net),
      GoogleNewsFetcher_fetch ex (google_response net),
      PYMNTSFetcher_fetch ex (pymnts_response net)]"

definition is_relevant :: "Article \<Rightarrow> bool" where
  "is_relevant article =
     (let text = lower (title article @ '' '' @ (case summary article of None \<Rightarrow> [] | Some s \<Rightarrow> s));
          keywords = [''paypal'', ''pypl'']
      in list_ex (\<lambda>keyword. contains text keyword) keywords)"

text \<open>The inner loop of \<open>collect_articles\<close>, on the pair \<open>(aggregated, seen_ids)\<close>.\<close>

fun add_items :: "Article list \<Rightarrow> Article list \<times> string set \<Rightarrow> Article list \<times> string set" where
  "add_items [] st = st"
| "add_items (article # rest) (aggregated, seen_ids) =
     (if id_of article \<in> seen_ids then add_items rest (aggregated, seen_ids)
      else if \<not> is_relevant article then add_items rest (aggregated, seen_ids)
      else add_items rest (aggregated @ [article], insert (id_of article) seen_ids))"

text \<open>The outer loop: a fetcher that raises is logged and skipped.\<close>

fun collect_loop ::
  "fetcher list \<Rightarrow> Config \<Rightarrow> Article list \<times> string set \<Rightarrow> Article list \<times> string set" where
  "collect_loop [] config st = st"
| "collect_loop (f # fs) config st =
     (case f config of
        Inl e \<Rightarrow> collect_loop fs config st
      | Inr entries \<Rightarrow> collect_loop fs config (add_items entries st))"

text \<open>\<open>fetchers or [...]\<close>: \<open>None\<close> and the empty list both give the three default fetchers.\<close>

definition fetchers_or_default :: "externals \<Rightarrow> network \<Rightarrow> fetcher list option \<Rightarrow> fetcher list" where
  "fetchers_or_default ex net fetchers =
     (case fetchers of
        None \<Rightarrow> default_fetchers ex net
      | Some l \<Rightarrow> if l = [] then default_fetchers ex net else l)"

definition collect_articles ::
  "externals \<Rightarrow> network \<Rightarrow> Config \<Rightarrow> fetcher list option \<Rightarrow> Article list" where
  "collect_articles ex net config fetchers =
     fst (collect_loop (fetchers_or_default ex net fetchers) config ([], {}))"

text \<open>
  For the statements below: all the items the fetchers return, in the order of the
  iteration (fetcher by fetcher, then item by item); a fetcher that raises gives none.
\<close>

definition fetched :: "fetcher list \<Rightarrow> Config \<Rightarrow> Article list" where
  "fetched fs config =
     concat (map (\<lambda>f. case f config of Inl e \<Rightarrow> [] | Inr entries \<Rightarrow> entries) fs)"

section \<open>state.py\<close>

text \<open>
  What \<open>json.loads\<close> returns: a dictionary from identities to titles, or a JSON value of
  another kind (a list, a string, a number, a boolean, null).
\<close>

datatype json_value = JDict "string \<rightharpoonup> string" | JOther

record DigestItem =
  item_title :: string
  item_source :: "string option"
  item_url :: string
  item_published_at :: "datetime option"
  item_summary :: string

record Digest =
  created_at :: datetime
  items :: "DigestItem list"

record DigestResult =
  digest :: Digest
  new_article_ids :: "string list"

text \<open>
  A file is told by what reading it does. \<open>Unreadable e\<close>: the file exists and
  \<open>read_text\<close> raises \<open>e\<close> (an \<open>OSError\<close> such as a refused permission, or a
  \<open>UnicodeDecodeError\<close>). \<open>Malformed\<close>: its text is not JSON and \<open>json.loads\<close> raises
  \<open>JSONDecodeError\<close>. \<open>Parsed v\<close>: its text is the JSON of \<open>v\<close>; \<open>json.dumps\<close> writes such
  a file and \<open>json.loads\<close> gives \<open>v\<close> back. \<open>Markdown d\<close>: its text is \<open>d.to_markdown()\<close>,
  which starts with \<open>#\<close> and is no JSON. Directories, and writes that fail, are not
  modelled.
\<close>

datatype disk_file = Missing | Unreadable exn | Malformed | Parsed json_value | Markdown Digest

type_synonym files = "path \<Rightarrow> disk_file"

datatype level = DEBUG | INFO | WARNING | ERROR

type_synonym log_record = "level \<times> string"

record StateStore =
  store_path :: path
  store_data :: json_value

text \<open>\<open>_load\<close> gives the store and the records it logs, or the exception it lets through.\<close>

definition StateStore_load :: "files \<Rightarrow> StateStore \<Rightarrow> exn + StateStore \<times> log_record list" where
  "StateStore_load fs st =
     (case fs (store_path st) of
        Missing \<Rightarrow> Inr (st, [])
      | Unreadable e \<Rightarrow> Inl e
      | Malformed \<Rightarrow>
          Inr (st\<lparr>store_data := JDict Map.empty\<rparr>,
               [(WARNING, ''Could not parse state file %s: %s'')])
      | Markdown d \<Rightarrow>
          Inr (st\<lparr>store_data := JDict Map.empty\<rparr>,
               [(WARNING, ''Could not parse state file %s: %s'')])
      | Parsed v \<Rightarrow> Inr (st\<lparr>store_data := v\<rparr>, []))"

definition StateStore_init :: "files \<Rightarrow> path \<Rightarrow> exn + StateStore \<times> log_record list" where
  "StateStore_init fs p = StateStore_load fs \<lparr>store_path = p, store_data = JDict Map.empty\<rparr>"

definition save :: "StateStore \<Rightarrow> files \<Rightarrow> files" where
  "save st fs = fs(store_path st := Parsed (store_data st))"

text \<open>\<open>set(self._data.keys())\<close>: only a dictionary has \<open>keys\<close>.\<close>

definition seen_ids :: "StateStore \<Rightarrow> exn + string set" where
  "seen_ids st =
     (case store_data st of
        JDict m \<Rightarrow> Inr (dom m)
      | JOther \<Rightarrow> Inl AttributeError)"

text \<open>\<open>self._data[article_id] = title\<close>: no other JSON value takes a string key.\<close>

definition mark_seen :: "StateStore \<Rightarrow> string \<Rightarrow> string \<Rightarrow> exn + StateStore" where
  "mark_seen st article_id t =
     (case store_data st of
        JDict m \<Rightarrow> Inr (st\<lparr>store_data := JDict (m(article_id \<mapsto> t))\<rparr>)
      | JOther \<Rightarrow> Inl TypeError)"

section \<open>content.py\<close>

text \<open>
  What \<open>enrich_article_content\<close> extracts from the answer of the page: \<open>None\<close> where it
  returns the article as it is (the request failed, or no paragraph has text), the joined
  paragraphs cut to \<open>max_chars\<close> otherwise.
\<close>

definition extracted_text :: "string list response \<Rightarrow> string option" where
  "extracted_text resp =
     (case resp of
        RequestFailed \<Rightarrow> None
      | Response ps \<Rightarrow>
          (let paragraphs = filter (\<lambda>p. p \<noteq> []) ps
           in if paragraphs = [] then None
              else (let max_chars = 2000;
                        text = join [CHR 0x0A, CHR 0x0A] paragraphs
                    in Some (if length text > max_chars then take max_chars text else text))))"

text \<open>
  Objects are held in a store, from references to the values of their fields; the store
  also keeps the URLs requested, in order. \<open>enrich_article_content\<close> takes the store and
  a reference and returns the store and the reference it returns.
\<close>

type_synonym ref = nat

record store =
  objects :: "ref \<Rightarrow> Article"
  requested :: "string list"

definition enrich_article_content ::
  "(string \<Rightarrow> string list response) \<Rightarrow> store \<Rightarrow> ref \<Rightarrow> store \<times> ref" where
  "enrich_article_content page s article =
     (if \<not> falsy (content (objects s article)) then (s, article)
      else (let s1 = s\<lparr>requested := requested s @ [url (objects s article)]\<rparr>
            in case extracted_text (page (url (objects s article))) of
                 None \<Rightarrow> (s1, article)
               | Some text \<Rightarrow>
                   (s1\<lparr>objects := (objects s1)(article := (objects s1 article)\<lparr>content := Some text\<rparr>)\<rparr>,
                    article)))"

definition best_text ::
  "(string \<Rightarrow> string list response) \<Rightarrow> store \<Rightarrow> ref \<Rightarrow> store \<times> string option" where
  "best_text page s article =
     (let (s', enriched) = enrich_article_content page s article
      in (s', primary_text (objects s' enriched)))"

text \<open>
  The fields of an article after \<open>enrich_article_content\<close>, for a caller that holds
  every article once: the loop of \<open>build_digest\<close>.
\<close>

definition enriched_article :: "(string \<Rightarrow> string list response) \<Rightarrow> Article \<Rightarrow> Article" where
  "enriched_article page article =
     (if \<not> falsy (content article) then article
      else case extracted_text (page (url article)) of
             None \<Rightarrow> article
           | Some text \<Rightarrow> article\<lparr>content := Some text\<rparr>)"

section \<open>digest.py\<close>

text \<open>The list comprehension of \<open>fresh_articles\<close> reads \<open>state.seen_ids\<close> at every article.\<close>

fun fresh_articles :: "StateStore \<Rightarrow> Article list \<Rightarrow> exn + Article list" where
  "fresh_articles state [] = Inr []"
| "fresh_articles state (article # rest) =
     (case seen_ids state of
        Inl e \<Rightarrow> Inl e
      | Inr seen \<Rightarrow>
          (case fresh_articles state rest of
             Inl e \<Rightarrow> Inl e
           | Inr kept \<Rightarrow> Inr (if id_of article \<notin> seen then article # kept else kept)))"

text \<open>\<open>art.published_at or datetime.min\<close>: a \<open>datetime\<close> is never false.\<close>

definition published_key :: "Article \<Rightarrow> datetime" where
  "published_key art = (case published_at art of None \<Rightarrow> datetime_min | Some d \<Rightarrow> d)"

text \<open>
  \<open>list.sort(key=..., reverse=True)\<close> reverses the list, sorts it stably in ascending
  order of the keys and reverses it again. A sort of keys of both kinds compares a naive
  key with an aware one, and that comparison raises \<open>TypeError\<close>.
\<close>

definition sort_published :: "Article list \<Rightarrow> exn + Article list" where
  "sort_published arts =
     (let keys = map published_key arts
      in if list_ex is_aware keys \<and> list_ex (\<lambda>k. \<not> is_aware k) keys then Inl TypeError
         else Inr (rev (sort_key (\<lambda>art. instant (published_key art)) (rev arts))))"

text \<open>
  The loop over \<open>fresh_articles\<close>: the articles as enrichment leaves them,
  \<open>digest_items\<close> and \<open>processed_ids\<close>.
\<close>

fun digest_loop ::
  "externals \<Rightarrow> network \<Rightarrow> Article list \<Rightarrow> Article list \<times> DigestItem list \<times> string list" where
  "digest_loop ex net [] = ([], [], [])"
| "digest_loop ex net (a # rest) =
     (let article = enriched_article (page_response net) a;
          text = primary_text article;
          (rest', digest_items, processed_ids) = digest_loop ex net rest
      in case text of
           None \<Rightarrow> (article # rest', digest_items, processed_ids)
         | Some t \<Rightarrow>
             if t = [] then (article # rest', digest_items, processed_ids)
             else (article # rest',
                   \<lparr>item_title = title article, item_source = source article,
                    item_url = url article, item_published_at = published_at article,
                    item_summary = summarize_text (lsa_summarize ex) t 3\<rparr> # digest_items,
                   id_of article # processed_ids))"

text \<open>The loop over \<open>processed_ids\<close>.\<close>

fun mark_all :: "Article list \<Rightarrow> string list \<Rightarrow> StateStore \<Rightarrow> exn + StateStore" where
  "mark_all fresh [] state = Inr state"
| "mark_all fresh (article_id # rest) state =
     (let matching = find (\<lambda>a. id_of a = article_id) fresh
      in case mark_seen state article_id (case matching of None \<Rightarrow> [] | Some a \<Rightarrow> title a) of
           Inl e \<Rightarrow> Inl e
         | Inr state' \<Rightarrow> mark_all fresh rest state')"

definition build_digest ::
  "externals \<Rightarrow> network \<Rightarrow> Config \<Rightarrow> files \<Rightarrow> exn + DigestResult \<times> files" where
  "build_digest ex net config fs =
     (case StateStore_init fs (state_file config) of
        Inl e \<Rightarrow> Inl e
      | Inr (state, logged) \<Rightarrow>
          (let articles = collect_articles ex net config None
           in case fresh_articles state articles of
                Inl e \<Rightarrow> Inl e
              | Inr fresh \<Rightarrow>
                  (case sort_published fresh of
                     Inl e \<Rightarrow> Inl e
                   | Inr sorted_fresh \<Rightarrow>
                       (let (fresh', digest_items, processed_ids) = digest_loop ex net sorted_fresh
                        in case mark_all fresh' processed_ids state of
                             Inl e \<Rightarrow> Inl e
                           | Inr state' \<Rightarrow>
                               Inr (\<lparr>digest = \<lparr>created_at = digest_date config, items = digest_items\<rparr>,
                                     new_article_ids = processed_ids\<rparr>,
                                    save state' fs)))))"

definition digest_path :: "externals \<Rightarrow> Config \<Rightarrow> path" where
  "digest_path ex config = digest_dir config @ [strftime_digest ex (digest_date config)]"

definition write_digest :: "Digest \<Rightarrow> path \<Rightarrow> files \<Rightarrow> files" where
  "write_digest d p fs = fs(p := Markdown d)"

text \<open>
  \<open>run\<close>, for a given configuration; \<open>print\<close> and the log are left out.
\<close>

definition run :: "externals \<Rightarrow> network \<Rightarrow> Config \<Rightarrow> files \<Rightarrow> exn + DigestResult \<times> files" where
  "run ex net config fs =
     (case build_digest ex net config fs of
        Inl e \<Rightarrow> Inl e
      | Inr (result, fs') \<Rightarrow>
          if items (digest result) \<noteq> []
          then Inr (result, write_digest (digest result) (digest_path ex config) fs')
          else Inr (result, fs'))"

section \<open>__main__.py\<close>



section \<open>Notions for the statements\<close>

text \<open>An article that the loop of \<open>build_digest\<close> does not skip: \<open>not text\<close> is false.\<close>

definition has_text :: "Article \<Rightarrow> bool" where
  "has_text a = (\<not> falsy (primary_text a))"

text \<open>The articles of a list that the loop renders, as enrichment leaves them.\<close>

definition rendered :: "network \<Rightarrow> Article list \<Rightarrow> Article list" where
  "rendered net arts = filter has_text (map (enriched_article (page_response net)) arts)"

text \<open>The item that the loop appends for an article with text.\<close>

definition item_of :: "externals \<Rightarrow> Article \<Rightarrow> DigestItem" where
  "item_of ex a =
     \<lparr>item_title = title a, item_source = source a, item_url = url a,
      item_published_at = published_at a,
      item_summary =
        summarize_text (lsa_summarize ex) (case primary_text a of None \<Rightarrow> [] | Some t \<Rightarrow> t) 3\<rparr>"

text \<open>The identities that the history on disk records: the keys that a load of it finds.\<close>

fun recorded :: "disk_file \<Rightarrow> string set" where
  "recorded (Parsed (JDict m)) = dom m"
| "recorded f = {}"

text \<open>
  The invariant of the loops of \<open>collect_articles\<close>, after the items \<open>prev\<close>: the
  identities seen are those of the aggregated items, which are distinct, and an item is
  aggregated exactly when it is the first relevant item of its identity in \<open>prev\<close>.
\<close>

definition first_seen_inv :: "Article list \<Rightarrow> Article list \<Rightarrow> string set \<Rightarrow> bool" where
  "first_seen_inv prev agg seen \<longleftrightarrow>
     seen = id_of ` set agg \<and> distinct (map id_of agg) \<and>
     (\<forall>a. a \<in> set agg \<longleftrightarrow> find (\<lambda>b. is_relevant b \<and> id_of b = id_of a) prev = Some a)"

section \<open>Example inputs\<close>

text \<open>An extractive pass that selects no sentence, as on a document without a word.\<close>

definition lsa_nothing :: summarizer where
  "lsa_nothing text sentence_count = []"

text \<open>
  Libraries for the examples: the identity in place of the hash, a date parser that
  knows one date, \<open>get_text\<close> of a fragment without markup.
\<close>

definition ex0 :: externals where
  "ex0 =
     \<lparr>sha256_hexdigest = (\<lambda>s. s),
      dateutil_parse = (\<lambda>s. if s = ''2024-05-01T12:00:00Z'' then Some (Aware 1714564800) else None),
      html_get_text = (\<lambda>s. s),
      lsa_summarize = lsa_nothing,
      strftime_digest = (\<lambda>d. ''paypal-digest-2024-05-02.md'')\<rparr>"

definition cfg0 :: Config where
  "cfg0 =
     \<lparr>newsapi_key = Some ''k'', data_dir = [''data''], digest_dir = [''data'', ''digests''],
      state_file = [''data'', ''state.json''], query = ''PayPal OR PYPL'', language = ''en'',
      max_articles = 30, digest_date = Naive 63850291200\<rparr>"

text \<open>A network where every request fails.\<close>

definition net_down :: network where
  "net_down =
     \<lparr>newsapi_response = RequestFailed, google_response = RequestFailed,
      pymnts_response = RequestFailed, page_response = (\<lambda>u. RequestFailed)\<rparr>"

text \<open>Two items of one identity: the first is not about the subject, the second is.\<close>

definition art_market :: Article where
  "art_market =
     \<lparr>title = ''Market closes higher'', url = ''https://example.com/a'', source = Some ''Example'',
      published_at = None, summary = Some ''Tech stocks rally'', content = None,
      author = None, id_of = ''1f''\<rparr>"

definition art_paypal :: Article where
  "art_paypal =
     \<lparr>title = ''PayPal raises guidance'', url = ''https://example.com/a'', source = Some ''Example'',
      published_at = None, summary = Some ''PYPL shares rise'', content = None,
      author = None, id_of = ''1f''\<rparr>"

definition feed_twice :: fetcher where
  "feed_twice config = Inr [art_market, art_paypal]"

definition feed_raises :: fetcher where
  "feed_raises config = Inl TypeError"

text \<open>
  A feed of two entries about the subject. The first has a summary; the second has
  none, so that its text can only come from its page.
\<close>

definition entry_p :: feed_entry where
  "entry_p =
     \<lparr>fe_title = Some ''PayPal expands checkout'', fe_link = Some ''u/p'',
      fe_summary = Some ''PayPal adds a button'', fe_published = None,
      fe_source_title = None\<rparr>"

definition entry_q :: feed_entry where
  "entry_q =
     \<lparr>fe_title = Some ''PYPL outlook'', fe_link = Some ''u/q'', fe_summary = None,
      fe_published = None, fe_source_title = None\<rparr>"

definition art_p :: Article where
  "art_p =
     \<lparr>title = ''PayPal expands checkout'', url = ''u/p'',
      source = Some ''Google News'',
      published_at = None, summary = Some ''PayPal adds a button'', content = None,
      author = None, id_of = ''google_news::u/p''\<rparr>"

definition art_q :: Article where
  "art_q =
     \<lparr>title = ''PYPL outlook'', url = ''u/q'', source = Some ''Google News'',
      published_at = None, summary = Some [], content = None,
      author = None, id_of = ''google_news::u/q''\<rparr>"

text \<open>Only the feed answers; no page can be fetched.\<close>

definition net_feed :: network where
  "net_feed =
     \<lparr>newsapi_response = RequestFailed, google_response = Response [entry_p, entry_q],
      pymnts_response = RequestFailed, page_response = (\<lambda>u. RequestFailed)\<rparr>"

text \<open>The same answers of the sources; the page of the second entry can now be fetched.\<close>

definition net_feed_pages :: network where
  "net_feed_pages =
     net_feed\<lparr>page_response :=
       (\<lambda>u. if u = ''u/q'' then Response [''PayPal shares rose''] else RequestFailed)\<rparr>"

text \<open>A disk without a file, and the disk after a first run on the feed.\<close>

definition files0 :: files where
  "files0 = (\<lambda>p. Missing)"

definition files_p :: files where
  "files_p =
     files0(state_file cfg0 :=
       Parsed (JDict [''google_news::u/p'' \<mapsto> ''PayPal expands checkout'']))"

definition item_p :: DigestItem where
  "item_p =
     \<lparr>item_title = ''PayPal expands checkout'', item_source = Some ''Google News'',
      item_url = ''u/p'', item_published_at = None, item_summary = ''PayPal adds a button''\<rparr>"

definition item_q :: DigestItem where
  "item_q =
     \<lparr>item_title = ''PYPL outlook'', item_source = Some ''Google News'',
      item_url = ''u/q'', item_published_at = None, item_summary = ''PayPal shares rose''\<rparr>"

text \<open>A store with the second article of the feed at every reference, nothing requested.\<close>

definition store0 :: store where
  "store0 = \<lparr>objects = (\<lambda>r. art_q), requested = []\<rparr>"

text \<open>
  Three articles for the report: A with a timestamp, B with none, C one day before A.
  The timestamps are aware, as \<open>dateutil\<close> gives them for a text with a zone such as
  \<open>2024-05-01T12:00:00Z\<close>; \<open>naive_of\<close> gives the same article with the zone dropped.
\<close>

definition art_A :: Article where
  "art_A =
     \<lparr>title = ''PayPal A'', url = ''u/a'', source = Some ''Google News'',
      published_at = Some (Aware 1714564800), summary = Some ''PayPal A'', content = None,
      author = None, id_of = ''google_news::u/a''\<rparr>"

definition art_B :: Article where
  "art_B =
     \<lparr>title = ''PayPal B'', url = ''u/b'', source = Some ''Google News'',
      published_at = None, summary = Some ''PayPal B'', content = None,
      author = None, id_of = ''google_news::u/b''\<rparr>"

definition art_C :: Article where
  "art_C =
     \<lparr>title = ''PayPal C'', url = ''u/c'', source = Some ''Google News'',
      published_at = Some (Aware 1714478400), summary = Some ''PayPal C'', content = None,
      author = None, id_of = ''google_news::u/c''\<rparr>"

definition naive_of :: "Article \<Rightarrow> Article" where
  "naive_of a =
     a\<lparr>published_at :=
         (case published_at a of
            None \<Rightarrow> None
          | Some d \<Rightarrow> Some (Naive (nat (instant d) + 62135596800)))\<rparr>"

text \<open>A feed of an entry with a timestamp and an entry without one.\<close>

definition entry_A :: feed_entry where
  "entry_A =
     \<lparr>fe_title = Some ''PayPal A'', fe_link = Some ''u/a'', fe_summary = Some ''PayPal A'',
      fe_published = Some ''2024-05-01T12:00:00Z'', fe_source_title = None\<rparr>"

definition entry_B :: feed_entry where
  "entry_B =
     \<lparr>fe_title = Some ''PayPal B'', fe_link = Some ''u/b'', fe_summary = Some ''PayPal B'',
      fe_published = None, fe_source_title = None\<rparr>"

definition net_dated :: network where
  "net_dated =
     \<lparr>newsapi_response = RequestFailed, google_response = Response [entry_A, entry_B],
      pymnts_response = RequestFailed, page_response = (\<lambda>u. RequestFailed)\<rparr>"

text \<open>
  A page of three paragraphs: 1500 characters, none, 1500 characters. Joined they are
  3002 characters.
\<close>

definition page_long :: "string \<Rightarrow> string list response" where
  "page_long u = Response [replicate 1500 CHR ''a'', [], replicate 1500 CHR ''b'']"

text \<open>A NewsAPI answer whose first article has a null source.\<close>

definition body_null_source :: newsapi_body where
  "body_null_source =
     Payload (Articles
       [Item \<lparr>na_title = Some ''PayPal news'', na_url = Some ''u/n'', na_content = None,
               na_description = None, na_publishedAt = None, na_source = SourceNotObject,
               na_author = None\<rparr>])"


section \<open>The summarizer\<close>

lemma split_from_nonempty_tokens:
  "w \<in> set (split_from cur s) \<Longrightarrow> w \<noteq> []"
  by (induction s arbitrary: cur) (auto split: if_splits)

lemma split_from_not_Nil:
  "cur \<noteq> [] \<or> list_ex (\<lambda>c. \<not> isspace c) s \<Longrightarrow> split_from cur s \<noteq> []"
  by (induction s arbitrary: cur) auto

lemma join_not_Nil: "ps \<noteq> [] \<Longrightarrow> hd ps \<noteq> [] \<Longrightarrow> join sep ps \<noteq> []"
  by (induction sep ps rule: join.induct) auto

lemma fallback_not_Nil:
  assumes "list_ex (\<lambda>c. \<not> isspace c) text"
  shows "join '' '' (take 60 (split text)) \<noteq> []"
proof -
  have ne: "split text \<noteq> []"
    using assms by (simp add: split_def split_from_not_Nil)
  then have "hd (split text) \<in> set (split text)" by simp
  then have "hd (split text) \<noteq> []"
    unfolding split_def by (rule split_from_nonempty_tokens)
  moreover have "take 60 (split text) \<noteq> []" using ne by simp
  moreover have "hd (take 60 (split text)) = hd (split text)" by simp
  ultimately show ?thesis by (simp add: join_not_Nil)
qed

text \<open>
  C1, as the code has it. When the sentences of the extractive pass, joined and stripped,
  are empty, \<open>summarize_text\<close> returns the first 60 whitespace-delimited tokens of the
  text joined by single spaces; and for every text with a character that is not
  whitespace the result is not empty.
\<close>

theorem summarize_text_fallback:
  "(strip (join '' '' (lsa text n)) = [] \<longrightarrow>
      summarize_text lsa text n = join '' '' (take 60 (split text))) \<and>
   (list_ex (\<lambda>c. \<not> isspace c) text \<longrightarrow> summarize_text lsa text n \<noteq> [])"
  using fallback_not_Nil [of "text"]
  by (simp add: summarize_text_def Let_def)

theorem summarize_text_fallback_witness:
  "strip (join '' '' (lsa_nothing ''PayPal beats earnings estimates today'' 3)) = [] \<and>
   list_ex (\<lambda>c. \<not> isspace c) ''PayPal beats earnings estimates today'' \<and>
   summarize_text lsa_nothing ''PayPal beats earnings estimates today'' 3
     = ''PayPal beats earnings estimates today''"
proof -
  have a: "strip (join '' '' (lsa_nothing ''PayPal beats earnings estimates today'' 3)) = []"
    by code_simp
  have b: "list_ex (\<lambda>c. \<not> isspace c) ''PayPal beats earnings estimates today''"
    by code_simp
  have c: "join '' '' (take 60 (split ''PayPal beats earnings estimates today''))
     = ''PayPal beats earnings estimates today''"
    by code_simp
  from summarize_text_fallback [of lsa_nothing "''PayPal beats earnings estimates today''" 3] a b c
  show ?thesis by simp
qed

text \<open>
  C1 as stated fails: a text of one space is not empty, the extractive pass selects
  nothing from it, it has no token, and the summary is empty.
\<close>

theorem summarize_text_whitespace_counterexample:
  "'' '' \<noteq> [] \<and> summarize_text lsa_nothing '' '' 3 = []"
  by code_simp

section \<open>The aggregator\<close>

lemma add_items_append:
  "add_items (xs @ ys) st = add_items ys (add_items xs st)"
  by (induction xs st rule: add_items.induct) auto

lemma collect_loop_fetched:
  "collect_loop fs config st = add_items (fetched fs config) st"
  by (induction fs arbitrary: st) (auto simp: fetched_def add_items_append split: sum.splits)

lemma collect_loop_skips_raising:
  "f config = Inl e \<Longrightarrow>
     collect_loop (fs1 @ f # fs2) config st = collect_loop (fs1 @ fs2) config st"
  by (simp add: collect_loop_fetched fetched_def)

lemma find_append_Some:
  "find P (xs @ ys) = (case find P xs of None \<Rightarrow> find P ys | Some x \<Rightarrow> Some x)"
  by (induction xs) auto

lemma find_SomeD: "find P xs = Some y \<Longrightarrow> P y \<and> y \<in> set xs"
  by (auto simp: find_Some_iff)

lemma inv_id_found:
  assumes inv: "first_seen_inv prev agg seen" and "id_of x \<in> seen"
  shows "\<exists>b. find (\<lambda>c. is_relevant c \<and> id_of c = id_of x) prev = Some b"
proof -
  from assms obtain b where b: "b \<in> set agg" "id_of b = id_of x"
    by (auto simp: first_seen_inv_def)
  then have "find (\<lambda>c. is_relevant c \<and> id_of c = id_of b) prev = Some b"
    using inv by (simp add: first_seen_inv_def)
  with b show ?thesis by simp
qed

lemma inv_found_id:
  assumes inv: "first_seen_inv prev agg seen"
    and "find (\<lambda>c. is_relevant c \<and> id_of c = id_of x) prev = Some y"
  shows "id_of x \<in> seen"
proof -
  from assms(2) have y: "is_relevant y" "id_of y = id_of x"
    using find_SomeD by fastforce+
  then have "find (\<lambda>c. is_relevant c \<and> id_of c = id_of y) prev = Some y"
    using assms(2) by simp
  then have "y \<in> set agg" using inv by (simp add: first_seen_inv_def)
  then have "id_of y \<in> id_of ` set agg" by (rule imageI)
  moreover have "seen = id_of ` set agg" using inv by (simp add: first_seen_inv_def)
  ultimately show ?thesis using y by simp
qed

lemma first_seen_inv_step:
  assumes inv: "first_seen_inv prev agg seen"
  shows "first_seen_inv (prev @ [x])
           (fst (add_items [x] (agg, seen))) (snd (add_items [x] (agg, seen)))"
proof (cases "id_of x \<in> seen")
  case True
  then obtain b where b: "find (\<lambda>c. is_relevant c \<and> id_of c = id_of x) prev = Some b"
    using inv_id_found [OF inv] by blast
  have "(a \<in> set agg) = (find (\<lambda>b. is_relevant b \<and> id_of b = id_of a) (prev @ [x]) = Some a)" for a
  proof (cases "find (\<lambda>b. is_relevant b \<and> id_of b = id_of a) prev")
    case None
    then have "a \<noteq> x" using b by auto
    with None inv show ?thesis
      by (auto simp: first_seen_inv_def find_append_Some)
  next
    case (Some y)
    with inv show ?thesis by (simp add: first_seen_inv_def find_append_Some)
  qed
  with True inv show ?thesis by (simp add: first_seen_inv_def)
next
  case False
  note fresh = this
  show ?thesis
  proof (cases "is_relevant x")
    case False
    have "(a \<in> set agg) = (find (\<lambda>b. is_relevant b \<and> id_of b = id_of a) (prev @ [x]) = Some a)" for a
      using inv False by (cases "find (\<lambda>b. is_relevant b \<and> id_of b = id_of a) prev")
        (auto simp: first_seen_inv_def find_append_Some)
    with fresh False inv show ?thesis by (simp add: first_seen_inv_def)
  next
    case True
    have none: "find (\<lambda>c. is_relevant c \<and> id_of c = id_of x) prev = None"
      using inv_found_id [OF inv] fresh by (cases "find (\<lambda>c. is_relevant c \<and> id_of c = id_of x) prev") auto
    have third: "(a \<in> set (agg @ [x])) = (find (\<lambda>b. is_relevant b \<and> id_of b = id_of a) (prev @ [x]) = Some a)" for a
    proof (cases "find (\<lambda>b. is_relevant b \<and> id_of b = id_of a) prev")
      case None
      with inv have "a \<notin> set agg" by (simp add: first_seen_inv_def)
      with None True show ?thesis by (auto simp: find_append_Some)
    next
      case (Some y)
      then have "a \<noteq> x" using none by auto
      with Some inv show ?thesis by (simp add: first_seen_inv_def find_append_Some)
    qed
    have "id_of x \<notin> id_of ` set agg" "seen = id_of ` set agg" "distinct (map id_of agg)"
      using inv fresh by (simp_all add: first_seen_inv_def)
    then have "insert (id_of x) seen = id_of ` set (agg @ [x])" "distinct (map id_of (agg @ [x]))"
      by auto
    moreover have "add_items [x] (agg, seen) = (agg @ [x], insert (id_of x) seen)"
      using fresh True by simp
    ultimately show ?thesis
      unfolding first_seen_inv_def using third by (simp only: fst_conv snd_conv) blast
  qed
qed

lemma first_seen_inv_add_items:
  "first_seen_inv prev agg seen \<Longrightarrow>
   first_seen_inv (prev @ xs) (fst (add_items xs (agg, seen))) (snd (add_items xs (agg, seen)))"
proof (induction xs arbitrary: prev agg seen)
  case Nil
  then show ?case by simp
next
  case (Cons x xs)
  from first_seen_inv_step [OF Cons.prems, of x]
  have "first_seen_inv (prev @ [x]) (fst (add_items [x] (agg, seen))) (snd (add_items [x] (agg, seen)))" .
  from Cons.IH [OF this] show ?case
    by (simp split: if_splits)
qed

lemma first_seen_inv_collect:
  "first_seen_inv (fetched fs config) (fst (collect_loop fs config ([], {})))
     (snd (collect_loop fs config ([], {})))"
  using first_seen_inv_add_items [of "[]" "[]" "{}" "fetched fs config"]
  by (simp add: collect_loop_fetched first_seen_inv_def)

lemma add_items_subseq:
  "\<exists>ys. fst (add_items xs (agg, seen)) = agg @ ys \<and> subseq ys xs"
proof (induction xs arbitrary: agg seen)
  case Nil
  then show ?case by simp
next
  case (Cons x xs)
  show ?case
  proof (cases "id_of x \<notin> seen \<and> is_relevant x")
    case True
    from Cons.IH [of "agg @ [x]" "insert (id_of x) seen"]
    obtain ys where "fst (add_items xs (agg @ [x], insert (id_of x) seen)) = (agg @ [x]) @ ys" "subseq ys xs"
      by blast
    with True show ?thesis by auto
  next
    case False
    from Cons.IH [of agg seen]
    obtain ys where "fst (add_items xs (agg, seen)) = agg @ ys" "subseq ys xs"
      by blast
    with False show ?thesis by (auto intro: subseq_Cons')
  qed
qed

text \<open>
  C6, as the code has it. The aggregated output has every identity at most once and
  keeps the order of the iteration; an item is in it exactly when it is the first
  relevant item of its identity among all the items fetched. So of two relevant items
  that share an identity only the first is kept and the later one is dropped; an item
  that fails the relevance filter does not take its identity.
\<close>

theorem collect_articles_first_seen:
  "distinct (map id_of (collect_articles ex net config fetchers)) \<and>
   subseq (collect_articles ex net config fetchers)
     (fetched (fetchers_or_default ex net fetchers) config) \<and>
   (a \<in> set (collect_articles ex net config fetchers) \<longleftrightarrow>
      find (\<lambda>b. is_relevant b \<and> id_of b = id_of a)
        (fetched (fetchers_or_default ex net fetchers) config) = Some a)"
proof -
  let ?fs = "fetchers_or_default ex net fetchers"
  have inv: "first_seen_inv (fetched ?fs config) (collect_articles ex net config fetchers)
     (snd (collect_loop ?fs config ([], {})))"
    using first_seen_inv_collect [of ?fs config] by (simp add: collect_articles_def)
  have "subseq (collect_articles ex net config fetchers) (fetched ?fs config)"
    using add_items_subseq [of "fetched ?fs config" "[]" "{}"]
    by (auto simp: collect_articles_def collect_loop_fetched)
  with inv show ?thesis by (simp add: first_seen_inv_def)
qed

text \<open>
  C6 as stated fails: of two items of one identity the first is not about the subject
  and the second is; the output holds the second, the later one.
\<close>

theorem collect_articles_later_kept_counterexample:
  "id_of art_market = id_of art_paypal \<and>
   fetched [feed_twice] cfg0 = [art_market, art_paypal] \<and>
   collect_articles ex0 net_down cfg0 (Some [feed_twice]) = [art_paypal]"
proof -
  have r0: "is_relevant art_paypal" by code_simp
  have r1: "\<not> is_relevant art_market" by code_simp
  have "id_of art_market = id_of art_paypal"
    by (simp add: art_market_def art_paypal_def)
  then show ?thesis using r0 r1
    by (simp add: collect_articles_def fetchers_or_default_def feed_twice_def fetched_def)
qed

section \<open>The relevance filter\<close>

lemma contains_sublist: "contains s k = sublist k s"
proof (induction s)
  case Nil
  then show ?case by simp
next
  case (Cons c cs)
  then show ?case by (simp add: sublist_Cons_right)
qed

lemma sublist_across_separator:
  assumes "c \<notin> set k" "sublist k (t @ c # h)"
  shows "sublist k t \<or> sublist k h"
proof -
  from assms(2) obtain ps ss where eq: "t @ c # h = ps @ k @ ss"
    by (auto simp: sublist_def)
  then consider us where "t = ps @ us" "us @ c # h = k @ ss"
    | us where "t @ us = ps" "c # h = us @ k @ ss"
    by (auto simp: append_eq_append_conv2)
  then show ?thesis
  proof cases
    case 1
    from 1(2) consider vs where "us = k @ vs"
      | vs where "us @ vs = k" "c # h = vs @ ss"
      by (auto simp: append_eq_append_conv2)
    then show ?thesis
    proof cases
      case 1
      with \<open>t = ps @ us\<close> show ?thesis by (auto simp: sublist_def)
    next
      case 2
      with assms(1) have "vs = []" by (cases vs) auto
      with 2 \<open>t = ps @ us\<close> have "t = ps @ k @ []" by simp
      then have "sublist k t" unfolding sublist_def by blast
      then show ?thesis ..
    qed
  next
    case 2
    show ?thesis
    proof (cases us)
      case Nil
      with 2(2) assms(1) have "k = []" by (cases k) auto
      then show ?thesis by simp
    next
      case (Cons u us')
      with 2(2) have "h = us' @ k @ ss" by simp
      then show ?thesis by (auto simp: sublist_def)
    qed
  qed
qed

lemma add_items_relevant:
  "list_all is_relevant agg \<Longrightarrow> list_all is_relevant (fst (add_items xs (agg, seen)))"
  by (induction xs arbitrary: agg seen) auto

lemma collect_articles_all_relevant:
  "a \<in> set (collect_articles ex net config fetchers) \<Longrightarrow> is_relevant a"
  using add_items_relevant [of "[]" "fetched (fetchers_or_default ex net fetchers) config" "{}"]
  by (simp add: collect_articles_def collect_loop_fetched list_all_iff)

lemma lower_append: "lower (xs @ ys) = lower xs @ lower ys"
  by (simp add: lower_def)

lemma lower_space: "lower '' '' = '' ''"
  by code_simp

lemma is_relevant_sublist:
  assumes "is_relevant a"
  shows "sublist ''paypal'' (lower (title a @ (case summary a of None \<Rightarrow> [] | Some s \<Rightarrow> s))) \<or>
         sublist ''pypl'' (lower (title a @ (case summary a of None \<Rightarrow> [] | Some s \<Rightarrow> s)))"
proof -
  let ?h = "case summary a of None \<Rightarrow> [] | Some s \<Rightarrow> s"
  have eq: "lower (title a @ '' '' @ ?h) = lower (title a) @ CHR '' '' # lower ?h"
    using lower_space by (simp add: lower_def)
  have both: "sublist k (lower (title a @ ?h))"
    if "CHR '' '' \<notin> set k" "sublist k (lower (title a) @ CHR '' '' # lower ?h)" for k
  proof -
    from sublist_across_separator [OF that]
    have "sublist k (lower (title a)) \<or> sublist k (lower ?h)" .
    then show ?thesis
      by (auto simp: lower_append intro: sublist_appendI dest: sublist_order.order.trans)
  qed
  from assms have "sublist ''paypal'' (lower (title a) @ CHR '' '' # lower ?h) \<or>
                   sublist ''pypl'' (lower (title a) @ CHR '' '' # lower ?h)"
    unfolding is_relevant_def Let_def eq by (simp add: contains_sublist)
  then show ?thesis using both [of "''paypal''"] both [of "''pypl''"] by auto
qed

section \<open>The digest\<close>

lemma enriched_article_fields:
  "id_of (enriched_article page a) = id_of a"
  "title (enriched_article page a) = title a"
  "url (enriched_article page a) = url a"
  "published_at (enriched_article page a) = published_at a"
  by (simp_all add: enriched_article_def split: option.splits)

lemma fresh_articles_JDict:
  "store_data st = JDict m \<Longrightarrow>
     fresh_articles st arts = Inr (filter (\<lambda>a. id_of a \<notin> dom m) arts)"
  by (induction arts) (simp_all add: seen_ids_def)

lemma fresh_articles_JOther:
  "store_data st = JOther \<Longrightarrow>
     fresh_articles st arts = (if arts = [] then Inr [] else Inl AttributeError)"
  by (cases arts) (simp_all add: seen_ids_def)

lemma sort_published_set:
  "sort_published xs = Inr ys \<Longrightarrow> set ys = set xs"
  by (auto simp: sort_published_def Let_def split: if_splits)

lemma sort_published_filter:
  assumes "sort_published xs = Inr ys"
  shows "\<exists>zs. sort_published (filter P xs) = Inr zs"
proof -
  have "list_ex Q (map published_key (filter P xs)) \<Longrightarrow> list_ex Q (map published_key xs)" for Q
    by (auto simp: list_ex_iff)
  with assms show ?thesis
    by (auto simp: sort_published_def Let_def split: if_splits)
qed

lemma digest_loop_eq:
  "digest_loop ex net xs =
     (map (enriched_article (page_response net)) xs,
      map (item_of ex) (rendered net xs),
      map id_of (rendered net xs))"
proof (induction xs)
  case Nil
  then show ?case by (simp add: rendered_def)
next
  case (Cons a xs)
  then show ?case
    by (cases "primary_text (enriched_article (page_response net) a)")
      (simp_all add: rendered_def has_text_def item_of_def Let_def)
qed

lemma mark_all_JDict:
  "store_data st = JDict m \<Longrightarrow>
     \<exists>m'. mark_all fr ids st = Inr (st\<lparr>store_data := JDict m'\<rparr>) \<and> dom m' = dom m \<union> set ids"
proof (induction ids arbitrary: st m)
  case Nil
  then show ?case by (intro exI [of _ m]) simp
next
  case (Cons i ids)
  let ?t = "case find (\<lambda>a. id_of a = i) fr of None \<Rightarrow> [] | Some a \<Rightarrow> title a"
  let ?st = "st\<lparr>store_data := JDict (m(i \<mapsto> ?t))\<rparr>"
  have step: "mark_seen st i ?t = Inr ?st"
    using Cons.prems by (simp add: mark_seen_def)
  have "store_data ?st = JDict (m(i \<mapsto> ?t))" by simp
  from Cons.IH [OF this] obtain m' where
    m': "mark_all fr ids ?st = Inr (?st\<lparr>store_data := JDict m'\<rparr>)"
        "dom m' = dom (m(i \<mapsto> ?t)) \<union> set ids"
    by blast
  show ?case
    using step m' by (intro exI [of _ m']) (auto simp: Let_def)
qed

lemma StateStore_init_cases:
  assumes "StateStore_init fs p = Inr (st, logged)"
  shows "store_path st = p \<and>
         ((\<exists>m. store_data st = JDict m \<and> recorded (fs p) = dom m) \<or>
          (store_data st = JOther \<and> fs p = Parsed JOther))"
proof (cases "fs p")
  case (Parsed v)
  with assms show ?thesis
    by (cases v) (auto simp: StateStore_init_def StateStore_load_def)
qed (use assms in \<open>auto simp: StateStore_init_def StateStore_load_def\<close>)


lemma build_digest_Inr:
  assumes "build_digest ex net config fs = Inr (res, fs')"
  obtains st logged fresh sorted_fresh st' where
    "StateStore_init fs (state_file config) = Inr (st, logged)"
    "fresh_articles st (collect_articles ex net config None) = Inr fresh"
    "sort_published fresh = Inr sorted_fresh"
    "mark_all (map (enriched_article (page_response net)) sorted_fresh)
       (map id_of (rendered net sorted_fresh)) st = Inr st'"
    "res = \<lparr>digest = \<lparr>created_at = digest_date config,
                       items = map (item_of ex) (rendered net sorted_fresh)\<rparr>,
            new_article_ids = map id_of (rendered net sorted_fresh)\<rparr>"
    "fs' = save st' fs"
  using assms unfolding build_digest_def
  by (auto simp: digest_loop_eq Let_def split: sum.splits prod.splits)

lemma build_digest_summary:
  assumes "build_digest ex net config fs = Inr (res, fs')"
  shows "\<exists>sorted_fresh.
           set sorted_fresh = {a \<in> set (collect_articles ex net config None).
                                 id_of a \<notin> recorded (fs (state_file config))} \<and>
           sort_published (filter (\<lambda>a. id_of a \<notin> recorded (fs (state_file config)))
                             (collect_articles ex net config None)) = Inr sorted_fresh \<and>
           new_article_ids res = map id_of (rendered net sorted_fresh) \<and>
           items (digest res) = map (item_of ex) (rendered net sorted_fresh) \<and>
           created_at (digest res) = digest_date config \<and>
           (\<exists>v. fs' = fs(state_file config := Parsed v) \<and>
                recorded (Parsed v) = recorded (fs (state_file config)) \<union> set (new_article_ids res) \<and>
                (v = JOther \<longrightarrow> collect_articles ex net config None = []) \<and>
                (new_article_ids res = [] \<longrightarrow>
                   recorded (fs (state_file config)) = {} \<or> fs (state_file config) = Parsed v))"
proof -
  let ?p = "state_file config"
  let ?arts = "collect_articles ex net config None"
  from assms obtain st logged fresh sorted_fresh st' where
    init: "StateStore_init fs ?p = Inr (st, logged)" and
    fresh: "fresh_articles st ?arts = Inr fresh" and
    sorted: "sort_published fresh = Inr sorted_fresh" and
    mark: "mark_all (map (enriched_article (page_response net)) sorted_fresh)
       (map id_of (rendered net sorted_fresh)) st = Inr st'" and
    res: "res = \<lparr>digest = \<lparr>created_at = digest_date config,
                       items = map (item_of ex) (rendered net sorted_fresh)\<rparr>,
            new_article_ids = map id_of (rendered net sorted_fresh)\<rparr>" and
    fs': "fs' = save st' fs"
    by (rule build_digest_Inr)
  from StateStore_init_cases [OF init] have path: "store_path st = ?p" by simp
  from StateStore_init_cases [OF init]
  consider m where "store_data st = JDict m" "recorded (fs ?p) = dom m"
    | "store_data st = JOther" "fs ?p = Parsed JOther"
    by blast
  then show ?thesis
  proof cases
    case 1
    from fresh 1 have fr: "fresh = filter (\<lambda>a. id_of a \<notin> recorded (fs ?p)) ?arts"
      by (simp add: fresh_articles_JDict)
    from mark_all_JDict [OF 1(1), of "map (enriched_article (page_response net)) sorted_fresh"
        "map id_of (rendered net sorted_fresh)"] mark obtain m' where
      m': "st' = st\<lparr>store_data := JDict m'\<rparr>"
          "dom m' = dom m \<union> set (map id_of (rendered net sorted_fresh))"
      by auto
    have empty: "fs ?p = Parsed (JDict m') \<or> recorded (fs ?p) = {}"
      if "rendered net sorted_fresh = []"
    proof -
      from that mark have "st' = st" by simp
      with m' 1 have "m' = m"
        by (metis StateStore.select_convs(2) StateStore.surjective StateStore.update_convs(2) json_value.inject)
      from init 1 show ?thesis
        unfolding \<open>m' = m\<close>
        by (cases "fs ?p") (auto simp: StateStore_init_def StateStore_load_def)
    qed
    show ?thesis
      apply (rule exI [of _ sorted_fresh])
      using sort_published_set [OF sorted] sorted fr res fs' m' 1 path empty
      by (auto simp: save_def intro!: exI [of _ "JDict m'"])
  next
    case 2
    from fresh 2 have "?arts = []" "fresh = []"
      by (auto simp: fresh_articles_JOther split: if_splits)
    with sorted have s: "sorted_fresh = []"
      using sort_published_set by fastforce
    with mark have "st' = st" by (simp add: rendered_def)
    show ?thesis
      apply (rule exI [of _ "[]"])
      using s res fs' 2 path \<open>st' = st\<close> \<open>?arts = []\<close> sorted \<open>fresh = []\<close>
      by (auto simp: save_def rendered_def intro!: exI [of _ JOther])
  qed
qed

lemma rendered_ids:
  "set (map id_of (rendered net xs)) =
     id_of ` {a \<in> set xs. has_text (enriched_article (page_response net) a)}"
  by (auto simp: rendered_def enriched_article_fields image_iff)
    (metis enriched_article_fields(1))

section \<open>Runs on the example feed\<close>

lemma relevant_examples:
  "is_relevant art_p" "is_relevant art_q" "is_relevant art_paypal" "\<not> is_relevant art_market"
  by code_simp+

lemma collect_feed:
  "collect_articles ex0 net_feed cfg0 None = [art_p, art_q]"
  "collect_articles ex0 net_feed_pages cfg0 None = [art_p, art_q]"
proof -
  have a: "GoogleNewsFetcher_article ex0 entry_p = Some art_p"
    by (simp add: GoogleNewsFetcher_article_def entry_p_def art_p_def ex0_def canonical_id_def)
  have b: "GoogleNewsFetcher_article ex0 entry_q = Some art_q"
    by (simp add: GoogleNewsFetcher_article_def entry_q_def art_q_def ex0_def canonical_id_def)
  have c: "id_of art_q \<noteq> id_of art_p" by (simp add: art_p_def art_q_def)
  show "collect_articles ex0 net_feed cfg0 None = [art_p, art_q]"
    using a b c relevant_examples
    by (simp add: collect_articles_def fetchers_or_default_def default_fetchers_def net_feed_def
        NewsAPIFetcher_fetch_def GoogleNewsFetcher_fetch_def PYMNTSFetcher_fetch_def
        List.map_filter_simps)
  show "collect_articles ex0 net_feed_pages cfg0 None = [art_p, art_q]"
    using a b c relevant_examples
    by (simp add: collect_articles_def fetchers_or_default_def default_fetchers_def net_feed_def
        net_feed_pages_def
        NewsAPIFetcher_fetch_def GoogleNewsFetcher_fetch_def PYMNTSFetcher_fetch_def
        List.map_filter_simps)
qed

lemma summaries:
  "summarize_text lsa_nothing ''PayPal adds a button'' 3 = ''PayPal adds a button''"
  "summarize_text lsa_nothing ''PayPal shares rose'' 3 = ''PayPal shares rose''"
  by code_simp+

lemma example_fields:
  "lsa_summarize ex0 = lsa_nothing"
  "page_response net_feed = (\<lambda>u. RequestFailed)"
  "page_response net_feed_pages =
     (\<lambda>u. if u = ''u/q'' then Response [''PayPal shares rose''] else RequestFailed)"
  "state_file cfg0 = [''data'', ''state.json'']"
  by (simp_all add: ex0_def net_feed_def net_feed_pages_def cfg0_def)

lemma first_run:
  "build_digest ex0 net_feed cfg0 files0 =
     Inr (\<lparr>digest = \<lparr>created_at = digest_date cfg0, items = [item_p]\<rparr>,
           new_article_ids = [''google_news::u/p'']\<rparr>, files_p)"
  using summaries
  by (simp add: build_digest_def collect_feed StateStore_init_def StateStore_load_def files0_def
      seen_ids_def sort_published_def published_key_def art_p_def art_q_def
      enriched_article_def extracted_text_def primary_text_def example_fields
      mark_seen_def save_def files_p_def item_p_def)

lemma second_run_same:
  "build_digest ex0 net_feed cfg0 files_p =
     Inr (\<lparr>digest = \<lparr>created_at = digest_date cfg0, items = []\<rparr>,
           new_article_ids = []\<rparr>, files_p)"
  using summaries
  by (simp add: build_digest_def collect_feed StateStore_init_def StateStore_load_def files0_def
      seen_ids_def sort_published_def published_key_def art_p_def art_q_def
      enriched_article_def extracted_text_def primary_text_def example_fields
      mark_seen_def save_def files_p_def item_p_def)

lemma second_run_pages:
  "build_digest ex0 net_feed_pages cfg0 files_p =
     Inr (\<lparr>digest = \<lparr>created_at = digest_date cfg0, items = [item_q]\<rparr>,
           new_article_ids = [''google_news::u/q'']\<rparr>,
          files_p(state_file cfg0 :=
            Parsed (JDict [''google_news::u/p'' \<mapsto> ''PayPal expands checkout'',
                           ''google_news::u/q'' \<mapsto> ''PYPL outlook''])))"
  using summaries
  by (simp add: build_digest_def collect_feed StateStore_init_def StateStore_load_def files0_def
      seen_ids_def sort_published_def published_key_def art_p_def art_q_def
      enriched_article_def extracted_text_def primary_text_def example_fields
      mark_seen_def save_def files_p_def item_q_def)


section \<open>The source adapters\<close>

text \<open>
  C4, as the code has it. Without an API key, and when the request fails (transport, or
  an HTTP error status such as a refused credential), \<open>fetch\<close> returns no item. With a
  key set, \<open>NewsAPIFetcher.fetch\<close> raises when the body of the answer is no JSON, is no
  JSON object, or has under \<open>articles\<close> a value that cannot be iterated. \<open>collect_articles\<close>
  catches what a fetcher raises: that fetcher gives no item, and the others are aggregated
  as if it were not there; so an answer on which \<open>NewsAPIFetcher.fetch\<close> raises gives the
  same articles as a failed request.
\<close>

theorem adapter_failures_give_no_items:
  "(falsy (newsapi_key config) \<longrightarrow> NewsAPIFetcher_fetch ex resp config = Inr []) \<and>
   NewsAPIFetcher_fetch ex RequestFailed config = Inr [] \<and>
   GoogleNewsFetcher_fetch ex RequestFailed config = Inr [] \<and>
   PYMNTSFetcher_fetch ex RequestFailed config = Inr [] \<and>
   (\<not> falsy (newsapi_key config) \<longrightarrow>
      NewsAPIFetcher_fetch ex (Response NotJson) config = Inl JSONDecodeError \<and>
      NewsAPIFetcher_fetch ex (Response NonObject) config = Inl AttributeError \<and>
      NewsAPIFetcher_fetch ex (Response (Payload NotIterable)) config = Inl TypeError) \<and>
   (f config = Inl e \<longrightarrow>
      fetched (fs1 @ f # fs2) config = fetched (fs1 @ fs2) config \<and>
      collect_articles ex net config (Some (fs1 @ f # fs2))
        = fst (collect_loop (fs1 @ fs2) config ([], {}))) \<and>
   (NewsAPIFetcher_fetch ex (Response body) config = Inl e \<longrightarrow>
      collect_articles ex (net\<lparr>newsapi_response := Response body\<rparr>) config None
        = collect_articles ex (net\<lparr>newsapi_response := RequestFailed\<rparr>) config None)"
proof -
  have a: "NewsAPIFetcher_fetch ex (Response NotJson) config = Inl JSONDecodeError \<and>
      NewsAPIFetcher_fetch ex (Response NonObject) config = Inl AttributeError \<and>
      NewsAPIFetcher_fetch ex (Response (Payload NotIterable)) config = Inl TypeError"
    if "\<not> falsy (newsapi_key config)"
    using that by (simp add: NewsAPIFetcher_fetch_def)
  have b: "collect_articles ex net config (Some (fs1 @ f # fs2))
        = fst (collect_loop (fs1 @ fs2) config ([], {}))" if "f config = Inl e"
    using that by (simp add: collect_articles_def fetchers_or_default_def collect_loop_skips_raising)
  have c: "fetched (fs1 @ f # fs2) config = fetched (fs1 @ fs2) config" if "f config = Inl e"
    using that by (simp add: fetched_def)
  have r: "NewsAPIFetcher_fetch ex RequestFailed config = Inr []"
    by (simp add: NewsAPIFetcher_fetch_def)
  have d: "collect_articles ex (net\<lparr>newsapi_response := Response body\<rparr>) config None
        = collect_articles ex (net\<lparr>newsapi_response := RequestFailed\<rparr>) config None"
    if "NewsAPIFetcher_fetch ex (Response body) config = Inl e"
    using that r
    by (simp add: collect_articles_def fetchers_or_default_def default_fetchers_def)
  have k: "NewsAPIFetcher_fetch ex resp config = Inr []" if "falsy (newsapi_key config)"
    using that by (simp add: NewsAPIFetcher_fetch_def)
  show ?thesis
    using a b c d k r
    by (simp add: GoogleNewsFetcher_fetch_def PYMNTSFetcher_fetch_def)
qed

theorem adapter_failures_give_no_items_witness:
  "falsy (newsapi_key (cfg0\<lparr>newsapi_key := None\<rparr>)) \<and>
   NewsAPIFetcher_fetch ex0 (Response NotJson) (cfg0\<lparr>newsapi_key := None\<rparr>) = Inr [] \<and>
   feed_raises (cfg0\<lparr>newsapi_key := None\<rparr>) = Inl TypeError \<and>
   collect_articles ex0 net_down (cfg0\<lparr>newsapi_key := None\<rparr>) (Some ([] @ feed_raises # [feed_twice]))
     = [art_paypal] \<and>
   \<not> falsy (newsapi_key cfg0) \<and>
   NewsAPIFetcher_fetch ex0 (Response NonObject) cfg0 = Inl AttributeError \<and>
   NewsAPIFetcher_fetch ex0 (Response (Payload NotIterable)) cfg0 = Inl TypeError \<and>
   NewsAPIFetcher_fetch ex0 (Response body_null_source) cfg0 = Inl AttributeError \<and>
   collect_articles ex0 (net_feed\<lparr>newsapi_response := Response body_null_source\<rparr>) cfg0 None
     = [art_p, art_q]"
proof -
  have r0: "is_relevant art_paypal" by code_simp
  have r1: "\<not> is_relevant art_market" by code_simp
  have k: "falsy (newsapi_key (cfg0\<lparr>newsapi_key := None\<rparr>))" by simp
  have k0: "\<not> falsy (newsapi_key cfg0)" by (simp add: cfg0_def)
  have f: "feed_raises (cfg0\<lparr>newsapi_key := None\<rparr>) = Inl TypeError"
    by (simp add: feed_raises_def)
  have l: "fst (collect_loop ([] @ [feed_twice]) (cfg0\<lparr>newsapi_key := None\<rparr>) ([], {})) = [art_paypal]"
    using r0 r1 by (simp add: feed_twice_def)
  have n: "NewsAPIFetcher_fetch ex0 (Response body_null_source) cfg0 = Inl AttributeError"
    by (simp add: NewsAPIFetcher_fetch_def NewsAPIFetcher_article_def body_null_source_def cfg0_def)
  have same: "net_feed\<lparr>newsapi_response := RequestFailed\<rparr> = net_feed"
    by (simp add: net_feed_def)
  from adapter_failures_give_no_items [where config = "cfg0\<lparr>newsapi_key := None\<rparr>" and ex = ex0
      and resp = "Response NotJson" and f = feed_raises and e = TypeError and ?fs1.0 = "[]"
      and ?fs2.0 = "[feed_twice]" and net = net_down] k f l
  have one: "NewsAPIFetcher_fetch ex0 (Response NotJson) (cfg0\<lparr>newsapi_key := None\<rparr>) = Inr [] \<and>
     collect_articles ex0 net_down (cfg0\<lparr>newsapi_key := None\<rparr>) (Some ([] @ feed_raises # [feed_twice]))
       = [art_paypal]"
    by simp
  from adapter_failures_give_no_items [where config = cfg0 and ex = ex0
      and body = body_null_source and e = AttributeError and net = net_feed]
    k0 n same collect_feed(1)
  have two: "NewsAPIFetcher_fetch ex0 (Response NonObject) cfg0 = Inl AttributeError \<and>
     NewsAPIFetcher_fetch ex0 (Response (Payload NotIterable)) cfg0 = Inl TypeError \<and>
     collect_articles ex0 (net_feed\<lparr>newsapi_response := Response body_null_source\<rparr>) cfg0 None
       = [art_p, art_q]"
    by simp
  from one two k k0 f n show ?thesis by simp
qed

text \<open>
  C4 as stated fails: with a key set and an answer whose body is no JSON,
  \<open>response.json()\<close> raises outside the \<open>try\<close>, and \<open>fetch\<close> raises to its caller.
\<close>

theorem newsapi_fetch_raises_counterexample:
  "NewsAPIFetcher_fetch ex0 (Response NotJson) cfg0 = Inl JSONDecodeError"
  by (simp add: NewsAPIFetcher_fetch_def cfg0_def)

section \<open>What a run records\<close>

text \<open>
  C9. When \<open>build_digest\<close> returns, the identities that the history on disk holds after
  the run and did not hold before are exactly \<open>new_article_ids\<close>, and nothing recorded
  before is lost. The items of the digest and \<open>new_article_ids\<close> come, in the same
  order, from the same articles: the fresh articles that have text after enrichment. A
  fresh article without text is neither among the rendered identities nor in the history
  after the run, so the next run finds it fresh again.
\<close>

theorem build_digest_records_rendered:
  assumes "build_digest ex net config fs = Inr (res, fs')"
  shows "recorded (fs' (state_file config)) - recorded (fs (state_file config))
           = set (new_article_ids res) \<and>
         recorded (fs (state_file config)) \<subseteq> recorded (fs' (state_file config)) \<and>
         (\<exists>arts. items (digest res) = map (item_of ex) arts \<and>
                 new_article_ids res = map id_of arts \<and>
                 set arts = {r. has_text r \<and>
                   (\<exists>a \<in> set (collect_articles ex net config None).
                      id_of a \<notin> recorded (fs (state_file config)) \<and>
                      r = enriched_article (page_response net) a)}) \<and>
         (\<forall>a \<in> set (collect_articles ex net config None).
            id_of a \<notin> recorded (fs (state_file config)) \<and>
            \<not> has_text (enriched_article (page_response net) a) \<longrightarrow>
              id_of a \<notin> set (new_article_ids res) \<and>
              id_of a \<notin> recorded (fs' (state_file config)))"
proof -
  let ?p = "state_file config"
  let ?arts = "collect_articles ex net config None"
  let ?enr = "enriched_article (page_response net)"
  from build_digest_summary [OF assms] obtain sorted_fresh v where
    s: "set sorted_fresh = {a \<in> set ?arts. id_of a \<notin> recorded (fs ?p)}" and
    ids: "new_article_ids res = map id_of (rendered net sorted_fresh)" and
    its: "items (digest res) = map (item_of ex) (rendered net sorted_fresh)" and
    fs': "fs' = fs(?p := Parsed v)" and
    rec: "recorded (Parsed v) = recorded (fs ?p) \<union> set (new_article_ids res)"
    by blast
  have idset: "set (new_article_ids res) =
      id_of ` {a \<in> set ?arts. id_of a \<notin> recorded (fs ?p) \<and> has_text (?enr a)}"
    unfolding ids rendered_ids s by auto
  then have disj: "set (new_article_ids res) \<inter> recorded (fs ?p) = {}" by auto
  have a: "recorded (fs' ?p) - recorded (fs ?p) = set (new_article_ids res)"
    using fs' rec disj by auto
  have b: "recorded (fs ?p) \<subseteq> recorded (fs' ?p)"
    using fs' rec by auto
  have c: "set (rendered net sorted_fresh) = {r. has_text r \<and>
                   (\<exists>a \<in> set ?arts. id_of a \<notin> recorded (fs ?p) \<and> r = ?enr a)}"
    unfolding rendered_def using s by auto
  have dist: "distinct (map id_of ?arts)"
    using collect_articles_first_seen [of ex net config None] by simp
  have d: "id_of a \<notin> set (new_article_ids res) \<and> id_of a \<notin> recorded (fs' ?p)"
    if "a \<in> set ?arts" "id_of a \<notin> recorded (fs ?p)" "\<not> has_text (?enr a)" for a
  proof -
    have "id_of a \<notin> set (new_article_ids res)"
    proof
      assume "id_of a \<in> set (new_article_ids res)"
      then obtain b where b: "b \<in> set ?arts" "has_text (?enr b)" "id_of b = id_of a"
        unfolding idset by auto
      with dist that(1) have "b = a"
        by (meson distinct_map inj_onD)
      with b that(3) show False by simp
    qed
    then show ?thesis using fs' rec that(2) by auto
  qed
  show ?thesis
    using a b c d ids its by blast
qed



theorem build_digest_records_rendered_witness:
  "build_digest ex0 net_feed cfg0 files0 =
     Inr (\<lparr>digest = \<lparr>created_at = digest_date cfg0, items = [item_p]\<rparr>,
           new_article_ids = [''google_news::u/p'']\<rparr>, files_p) \<and>
   recorded (files_p (state_file cfg0)) - recorded (files0 (state_file cfg0))
     = {''google_news::u/p''} \<and>
   art_q \<in> set (collect_articles ex0 net_feed cfg0 None) \<and>
   \<not> has_text (enriched_article (page_response net_feed) art_q) \<and>
   id_of art_q \<notin> recorded (files_p (state_file cfg0))"
proof -
  have q: "art_q \<in> set (collect_articles ex0 net_feed cfg0 None)"
    by (simp add: collect_feed)
  have n: "id_of art_q \<notin> recorded (files0 (state_file cfg0))"
    by (simp add: files0_def)
  have t: "\<not> has_text (enriched_article (page_response net_feed) art_q)"
    by (simp add: has_text_def enriched_article_def extracted_text_def example_fields
        primary_text_def art_q_def)
  from build_digest_records_rendered [OF first_run] q n t first_run
  show ?thesis by auto
qed

section \<open>Two runs\<close>

lemma build_digest_new_ids_unrecorded:
  assumes "build_digest ex net config fs = Inr (res, fs')"
  shows "set (new_article_ids res) \<inter> recorded (fs (state_file config)) = {}"
proof -
  from build_digest_summary [OF assms] obtain sorted_fresh where
    s: "set sorted_fresh = {a \<in> set (collect_articles ex net config None).
                             id_of a \<notin> recorded (fs (state_file config))}" and
    ids: "new_article_ids res = map id_of (rendered net sorted_fresh)"
    by blast
  have "set (new_article_ids res) =
      id_of ` {a \<in> set (collect_articles ex net config None).
                 id_of a \<notin> recorded (fs (state_file config)) \<and>
                 has_text (enriched_article (page_response net) a)}"
    unfolding ids rendered_ids s by auto
  then show ?thesis by auto
qed

text \<open>
  C8, as the code has it. When a run returns and a second run starts from the disk it
  leaves, with the same answers of the sources and of the pages, the second run renders
  no item, records nothing and writes no report. And whatever the sources answer later,
  an identity that the history held before the first run or that the first run recorded
  is in no later report.
\<close>

theorem second_run_has_no_new_items:
  assumes "build_digest ex net config fs = Inr (r1, fs1)"
  shows "build_digest ex net config fs1 =
           Inr (\<lparr>digest = \<lparr>created_at = digest_date config, items = []\<rparr>,
                 new_article_ids = []\<rparr>, fs1) \<and>
         run ex net config fs1 =
           Inr (\<lparr>digest = \<lparr>created_at = digest_date config, items = []\<rparr>,
                 new_article_ids = []\<rparr>, fs1) \<and>
         (\<forall>ex' net' config' r fs2.
            state_file config' = state_file config \<and>
            build_digest ex' net' config' fs1 = Inr (r, fs2) \<longrightarrow>
              set (new_article_ids r) \<inter>
                (recorded (fs (state_file config)) \<union> set (new_article_ids r1)) = {})"
proof -
  let ?p = "state_file config"
  let ?arts = "collect_articles ex net config None"
  let ?enr = "enriched_article (page_response net)"
  let ?R = "recorded (fs ?p)"
  from build_digest_summary [OF assms] obtain sorted1 v where
    s1: "set sorted1 = {a \<in> set ?arts. id_of a \<notin> ?R}" and
    sort1: "sort_published (filter (\<lambda>a. id_of a \<notin> ?R) ?arts) = Inr sorted1" and
    ids1: "new_article_ids r1 = map id_of (rendered net sorted1)" and
    fs1: "fs1 = fs(?p := Parsed v)" and
    rec1: "recorded (Parsed v) = ?R \<union> set (new_article_ids r1)" and
    other: "v = JOther \<longrightarrow> ?arts = []"
    by blast
  have init: "StateStore_init fs1 ?p = Inr (\<lparr>store_path = ?p, store_data = v\<rparr>, [])"
    by (simp add: fs1 StateStore_init_def StateStore_load_def)
  have save: "save \<lparr>store_path = ?p, store_data = v\<rparr> fs1 = fs1"
    by (simp add: fs1 save_def)
  have "\<exists>sorted2. fresh_articles \<lparr>store_path = ?p, store_data = v\<rparr> ?arts
            = Inr (filter (\<lambda>a. id_of a \<notin> recorded (Parsed v)) ?arts) \<and>
          sort_published (filter (\<lambda>a. id_of a \<notin> recorded (Parsed v)) ?arts) = Inr sorted2 \<and>
          rendered net sorted2 = []"
  proof (cases v)
    case (JDict m)
    have f2: "filter (\<lambda>a. id_of a \<notin> recorded (Parsed v)) ?arts
        = filter (\<lambda>a. id_of a \<notin> set (new_article_ids r1)) (filter (\<lambda>a. id_of a \<notin> ?R) ?arts)"
      by (simp add: rec1)
    from sort_published_filter [OF sort1, of "\<lambda>a. id_of a \<notin> set (new_article_ids r1)"]
    obtain sorted2 where
      sort2: "sort_published (filter (\<lambda>a. id_of a \<notin> recorded (Parsed v)) ?arts) = Inr sorted2"
      unfolding f2 by blast
    have "\<not> has_text (?enr a)" if "a \<in> set sorted2" for a
    proof
      assume h: "has_text (?enr a)"
      from that sort_published_set [OF sort2]
      have a: "a \<in> set ?arts" "id_of a \<notin> ?R" "id_of a \<notin> set (new_article_ids r1)"
        unfolding rec1 by auto
      then have "a \<in> set sorted1" using s1 by simp
      with h have "id_of a \<in> set (map id_of (rendered net sorted1))"
        unfolding rendered_ids by blast
      with a(3) ids1 show False by simp
    qed
    then have "rendered net sorted2 = []"
      by (auto simp: rendered_def filter_empty_conv)
    with sort2 JDict show ?thesis
      by (simp add: fresh_articles_JDict)
  next
    case JOther
    with other have "?arts = []" by simp
    then show ?thesis
      by (simp add: sort_published_def rendered_def)
  qed
  then obtain sorted2 where
    fresh2: "fresh_articles \<lparr>store_path = ?p, store_data = v\<rparr> ?arts
            = Inr (filter (\<lambda>a. id_of a \<notin> recorded (Parsed v)) ?arts)" and
    sort2: "sort_published (filter (\<lambda>a. id_of a \<notin> recorded (Parsed v)) ?arts) = Inr sorted2" and
    none: "rendered net sorted2 = []"
    by blast
  have build2: "build_digest ex net config fs1 =
           Inr (\<lparr>digest = \<lparr>created_at = digest_date config, items = []\<rparr>,
                 new_article_ids = []\<rparr>, fs1)"
    unfolding build_digest_def
    by (simp add: init fresh2 sort2 digest_loop_eq none save)
  then have run2: "run ex net config fs1 =
           Inr (\<lparr>digest = \<lparr>created_at = digest_date config, items = []\<rparr>,
                 new_article_ids = []\<rparr>, fs1)"
    by (simp add: run_def)
  have later: "set (new_article_ids r) \<inter> (?R \<union> set (new_article_ids r1)) = {}"
    if "state_file config' = ?p" "build_digest ex' net' config' fs1 = Inr (r, fs2)"
    for ex' net' config' r fs2
  proof -
    from that(2) have "set (new_article_ids r) \<inter> recorded (fs1 (state_file config')) = {}"
      by (rule build_digest_new_ids_unrecorded)
    then show ?thesis
      using that(1) rec1 by (simp add: fs1)
  qed
  show ?thesis
  proof (intro conjI allI impI)
    show "build_digest ex net config fs1 =
           Inr (\<lparr>digest = \<lparr>created_at = digest_date config, items = []\<rparr>,
                 new_article_ids = []\<rparr>, fs1)"
      by (rule build2)
    show "run ex net config fs1 =
           Inr (\<lparr>digest = \<lparr>created_at = digest_date config, items = []\<rparr>,
                 new_article_ids = []\<rparr>, fs1)"
      by (rule run2)
    fix ex' net' config' r fs2
    assume "state_file config' = state_file config \<and>
            build_digest ex' net' config' fs1 = Inr (r, fs2)"
    then show "set (new_article_ids r) \<inter>
                (recorded (fs (state_file config)) \<union> set (new_article_ids r1)) = {}"
      using later by blast
  qed
qed

theorem second_run_has_no_new_items_witness:
  "build_digest ex0 net_feed cfg0 files0 =
     Inr (\<lparr>digest = \<lparr>created_at = digest_date cfg0, items = [item_p]\<rparr>,
           new_article_ids = [''google_news::u/p'']\<rparr>, files_p) \<and>
   build_digest ex0 net_feed cfg0 files_p =
     Inr (\<lparr>digest = \<lparr>created_at = digest_date cfg0, items = []\<rparr>,
           new_article_ids = []\<rparr>, files_p)"
  using second_run_has_no_new_items [OF first_run] first_run by simp

text \<open>
  C8 as stated fails. The sources answer the same in both runs. In the first run the
  page of the second entry cannot be fetched: the entry has no text, is skipped and is
  not recorded. In the second run the page can be fetched, and the entry is a new item.
\<close>

theorem second_run_new_item_counterexample:
  "newsapi_response net_feed_pages = newsapi_response net_feed \<and>
   google_response net_feed_pages = google_response net_feed \<and>
   pymnts_response net_feed_pages = pymnts_response net_feed \<and>
   build_digest ex0 net_feed cfg0 files0 =
     Inr (\<lparr>digest = \<lparr>created_at = digest_date cfg0, items = [item_p]\<rparr>,
           new_article_ids = [''google_news::u/p'']\<rparr>, files_p) \<and>
   build_digest ex0 net_feed_pages cfg0 files_p =
     Inr (\<lparr>digest = \<lparr>created_at = digest_date cfg0, items = [item_q]\<rparr>,
           new_article_ids = [''google_news::u/q'']\<rparr>,
          files_p(state_file cfg0 :=
            Parsed (JDict [''google_news::u/p'' \<mapsto> ''PayPal expands checkout'',
                           ''google_news::u/q'' \<mapsto> ''PYPL outlook''])))"
  using first_run second_run_pages by (simp add: net_feed_pages_def)

section \<open>Relevance before history\<close>

text \<open>
  C7. An item that \<open>collect_articles\<close> retains is relevant: the lowered text of its title,
  a space and its summary hint holds \<open>paypal\<close> or \<open>pypl\<close>, and so does the lowered
  concatenation of title and hint. \<open>collect_articles\<close> does not take the history; whatever
  the disk holds, every identity that \<open>build_digest\<close> renders is that of a relevant item
  it collected, so an item that matches no keyword is excluded before the history is
  consulted.
\<close>

theorem relevance_filter:
  assumes "a \<in> set (collect_articles ex net config fetchers)"
  shows "is_relevant a \<and>
         (is_relevant a =
            (sublist ''paypal''
               (lower (title a @ '' '' @ (case summary a of None \<Rightarrow> [] | Some s \<Rightarrow> s))) \<or>
             sublist ''pypl''
               (lower (title a @ '' '' @ (case summary a of None \<Rightarrow> [] | Some s \<Rightarrow> s))))) \<and>
         (sublist ''paypal'' (lower (title a @ (case summary a of None \<Rightarrow> [] | Some s \<Rightarrow> s))) \<or>
          sublist ''pypl'' (lower (title a @ (case summary a of None \<Rightarrow> [] | Some s \<Rightarrow> s)))) \<and>
         (\<forall>fs res fs'. build_digest ex net config fs = Inr (res, fs') \<longrightarrow>
            (\<forall>i \<in> set (new_article_ids res).
               \<exists>b \<in> set (collect_articles ex net config None). id_of b = i \<and> is_relevant b))"
proof -
  have r: "is_relevant a" using assms by (rule collect_articles_all_relevant)
  have c: "is_relevant a =
            (sublist ''paypal''
               (lower (title a @ '' '' @ (case summary a of None \<Rightarrow> [] | Some s \<Rightarrow> s))) \<or>
             sublist ''pypl''
               (lower (title a @ '' '' @ (case summary a of None \<Rightarrow> [] | Some s \<Rightarrow> s))))"
    by (simp add: is_relevant_def contains_sublist Let_def)
  have d: "\<exists>b \<in> set (collect_articles ex net config None). id_of b = i \<and> is_relevant b"
    if "build_digest ex net config fs = Inr (res, fs')" "i \<in> set (new_article_ids res)"
    for fs res fs' i
  proof -
    from build_digest_summary [OF that(1)] obtain sorted_fresh where
      s: "set sorted_fresh = {a \<in> set (collect_articles ex net config None).
                             id_of a \<notin> recorded (fs (state_file config))}" and
      ids: "new_article_ids res = map id_of (rendered net sorted_fresh)"
      by blast
    from that(2) have "i \<in> id_of ` {a \<in> set sorted_fresh.
        has_text (enriched_article (page_response net) a)}"
      unfolding ids rendered_ids .
    then obtain b where "b \<in> set sorted_fresh" "id_of b = i" by auto
    then have "b \<in> set (collect_articles ex net config None)" "id_of b = i"
      unfolding s by auto
    then show ?thesis
      using collect_articles_all_relevant by blast
  qed
  from r c is_relevant_sublist [OF r] d show ?thesis by blast
qed

theorem relevance_filter_witness:
  "art_paypal \<in> set (collect_articles ex0 net_down cfg0 (Some [feed_twice])) \<and>
   art_market \<notin> set (collect_articles ex0 net_down cfg0 (Some [feed_twice])) \<and>
   is_relevant art_paypal \<and> \<not> is_relevant art_market \<and>
   sublist ''paypal'' (lower (title art_paypal @ '' '' @ ''PYPL shares rise''))"
proof -
  have col: "collect_articles ex0 net_down cfg0 (Some [feed_twice]) = [art_paypal]"
    using relevant_examples
    by (simp add: collect_articles_def fetchers_or_default_def feed_twice_def)
  have ne: "art_market \<noteq> art_paypal" by (simp add: art_market_def art_paypal_def)
  have a: "art_paypal \<in> set (collect_articles ex0 net_down cfg0 (Some [feed_twice]))"
    by (simp add: col)
  have s: "sublist ''paypal'' (lower (title art_paypal @ '' '' @ ''PYPL shares rise''))"
    unfolding contains_sublist [symmetric] by code_simp
  from relevance_filter [OF a] a ne s relevant_examples show ?thesis
    by (simp add: col)
qed

section \<open>Enrichment\<close>

lemma extracted_text_Response:
  "extracted_text (Response ps) =
     (if filter (\<lambda>p. p \<noteq> []) ps = [] then None
      else Some (take 2000 (join [CHR 0x0A, CHR 0x0A] (filter (\<lambda>p. p \<noteq> []) ps))))"
  by (simp add: extracted_text_def Let_def)

text \<open>
  C10. For an article whose content is empty, \<open>enrich_article_content\<close> requests the URL
  of the article. When the page is fetched and has a paragraph with text, it stores the
  paragraphs with text, joined by blank lines and cut to their first 2000 characters, in
  the content of the object behind the reference it was given, leaves every other object
  and every other field as they are, and returns that reference. When the request fails
  or no paragraph has text, the object is left as it is. For an article whose content is
  populated it returns the reference with the store unchanged: no URL is requested.
  \<open>best_text\<close> returns the primary text of the object after that call.
\<close>

theorem enrich_article_content_in_place:
  "(\<not> falsy (content (objects s r)) \<longrightarrow>
      enrich_article_content page s r = (s, r) \<and>
      best_text page s r = (s, content (objects s r))) \<and>
   (falsy (content (objects s r)) \<and> page (url (objects s r)) = Response ps \<and>
    filter (\<lambda>p. p \<noteq> []) ps \<noteq> [] \<longrightarrow>
      enrich_article_content page s r =
        (\<lparr>objects = (objects s)(r := (objects s r)
            \<lparr>content := Some (take 2000 (join [CHR 0x0A, CHR 0x0A] (filter (\<lambda>p. p \<noteq> []) ps)))\<rparr>),
          requested = requested s @ [url (objects s r)]\<rparr>, r) \<and>
      length (take 2000 (join [CHR 0x0A, CHR 0x0A] (filter (\<lambda>p. p \<noteq> []) ps))) \<le> 2000 \<and>
      (length (join [CHR 0x0A, CHR 0x0A] (filter (\<lambda>p. p \<noteq> []) ps)) \<le> 2000 \<longrightarrow>
         take 2000 (join [CHR 0x0A, CHR 0x0A] (filter (\<lambda>p. p \<noteq> []) ps))
           = join [CHR 0x0A, CHR 0x0A] (filter (\<lambda>p. p \<noteq> []) ps))) \<and>
   (falsy (content (objects s r)) \<and>
    (page (url (objects s r)) = RequestFailed \<or>
     page (url (objects s r)) = Response ps \<and> filter (\<lambda>p. p \<noteq> []) ps = []) \<longrightarrow>
      enrich_article_content page s r =
        (\<lparr>objects = objects s, requested = requested s @ [url (objects s r)]\<rparr>, r)) \<and>
   snd (enrich_article_content page s r) = r \<and>
   (\<forall>q. q \<noteq> r \<longrightarrow> objects (fst (enrich_article_content page s r)) q = objects s q) \<and>
   objects (fst (enrich_article_content page s r)) r = enriched_article page (objects s r) \<and>
   best_text page s r =
     (fst (enrich_article_content page s r), primary_text (enriched_article page (objects s r)))"
proof -
  let ?t = "take 2000 (join [CHR 0x0A, CHR 0x0A] (filter (\<lambda>p. p \<noteq> []) ps))"
  have a: "enrich_article_content page s r = (s, r) \<and>
      best_text page s r = (s, content (objects s r))" if "\<not> falsy (content (objects s r))"
    using that by (simp add: enrich_article_content_def best_text_def primary_text_def)
  have b: "enrich_article_content page s r =
        (\<lparr>objects = (objects s)(r := (objects s r)\<lparr>content := Some ?t\<rparr>),
          requested = requested s @ [url (objects s r)]\<rparr>, r)"
    if "falsy (content (objects s r))" "page (url (objects s r)) = Response ps"
       "filter (\<lambda>p. p \<noteq> []) ps \<noteq> []"
    using that by (simp add: enrich_article_content_def extracted_text_Response Let_def)
  have c: "enrich_article_content page s r =
        (\<lparr>objects = objects s, requested = requested s @ [url (objects s r)]\<rparr>, r)"
    if "falsy (content (objects s r))"
       "page (url (objects s r)) = RequestFailed \<or>
        page (url (objects s r)) = Response ps \<and> filter (\<lambda>p. p \<noteq> []) ps = []"
    using that
    by (auto simp: enrich_article_content_def extracted_text_Response extracted_text_def Let_def)
  have d: "snd (enrich_article_content page s r) = r"
    by (simp add: enrich_article_content_def Let_def split: option.splits)
  have e: "objects (fst (enrich_article_content page s r)) q = objects s q" if "q \<noteq> r" for q
    using that by (simp add: enrich_article_content_def Let_def split: option.splits)
  have f: "objects (fst (enrich_article_content page s r)) r = enriched_article page (objects s r)"
    by (simp add: enrich_article_content_def enriched_article_def Let_def split: option.splits)
  have g: "best_text page s r =
     (fst (enrich_article_content page s r), primary_text (enriched_article page (objects s r)))"
    using d f by (simp add: best_text_def split_beta)
  have h: "length ?t \<le> 2000" by simp
  show ?thesis
    using a b c d e f g h by simp
qed

theorem enrich_article_content_in_place_witness:
  "falsy (content (objects store0 0)) \<and>
   page_long (url (objects store0 0))
     = Response [replicate 1500 CHR ''a'', [], replicate 1500 CHR ''b''] \<and>
   filter (\<lambda>p. p \<noteq> []) [replicate 1500 CHR ''a'', [], replicate 1500 CHR ''b''] \<noteq> [] \<and>
   length (join [CHR 0x0A, CHR 0x0A]
     (filter (\<lambda>p. p \<noteq> []) [replicate 1500 CHR ''a'', [], replicate 1500 CHR ''b''])) = 3002 \<and>
   enrich_article_content page_long store0 0 =
     (\<lparr>objects = (objects store0)(0 := art_q
         \<lparr>content := Some (replicate 1500 CHR ''a'' @ [CHR 0x0A, CHR 0x0A] @ replicate 498 CHR ''b'')\<rparr>),
       requested = [''u/q'']\<rparr>, 0) \<and>
   length (replicate 1500 CHR ''a'' @ [CHR 0x0A, CHR 0x0A] @ replicate 498 CHR ''b'') = 2000 \<and>
   enrich_article_content (page_response net_feed_pages) store0 0 =
     (\<lparr>objects = (objects store0)(0 := art_q\<lparr>content := Some ''PayPal shares rose''\<rparr>),
       requested = [''u/q'']\<rparr>, 0) \<and>
   objects \<lparr>objects = (objects store0)(0 := art_q\<lparr>content := Some ''PayPal shares rose''\<rparr>),
            requested = [''u/q'']\<rparr> 1 = art_q \<and>
   \<not> falsy (content (objects
       \<lparr>objects = (objects store0)(0 := art_q\<lparr>content := Some ''PayPal shares rose''\<rparr>),
        requested = [''u/q'']\<rparr> 0)) \<and>
   enrich_article_content (page_response net_feed_pages)
     \<lparr>objects = (objects store0)(0 := art_q\<lparr>content := Some ''PayPal shares rose''\<rparr>),
      requested = [''u/q'']\<rparr> 0 =
     (\<lparr>objects = (objects store0)(0 := art_q\<lparr>content := Some ''PayPal shares rose''\<rparr>),
       requested = [''u/q'']\<rparr>, 0) \<and>
   page_response net_feed (url (objects store0 0)) = RequestFailed \<and>
   enrich_article_content (page_response net_feed) store0 0 =
     (\<lparr>objects = objects store0, requested = [''u/q'']\<rparr>, 0)"
proof -
  let ?s1 = "\<lparr>objects = (objects store0)(0 := art_q\<lparr>content := Some ''PayPal shares rose''\<rparr>),
              requested = [''u/q'']\<rparr>"
  let ?ps = "[replicate 1500 CHR ''a'', [], replicate 1500 CHR ''b'']"
  have o: "objects store0 0 = art_q" "requested store0 = []" "url art_q = ''u/q''"
    "content art_q = None"
    by (simp_all add: store0_def art_q_def)
  have f: "falsy (content (objects store0 0))" by (simp add: o)
  have pl: "page_long (url (objects store0 0)) = Response ?ps"
    by (simp add: page_long_def)
  have fl: "filter (\<lambda>p. p \<noteq> []) ?ps = [replicate 1500 CHR ''a'', replicate 1500 CHR ''b'']"
    by simp
  have jl: "join [CHR 0x0A, CHR 0x0A] (filter (\<lambda>p. p \<noteq> []) ?ps)
      = replicate 1500 CHR ''a'' @ [CHR 0x0A, CHR 0x0A] @ replicate 1500 CHR ''b''"
    by (simp add: fl)
  have tl: "take 2000 (join [CHR 0x0A, CHR 0x0A] (filter (\<lambda>p. p \<noteq> []) ?ps))
      = replicate 1500 CHR ''a'' @ [CHR 0x0A, CHR 0x0A] @ replicate 498 CHR ''b''"
    unfolding jl by simp
  have ll: "length (join [CHR 0x0A, CHR 0x0A] (filter (\<lambda>p. p \<noteq> []) ?ps)) = 3002"
    unfolding jl by simp
  have ne: "filter (\<lambda>p. p \<noteq> []) ?ps \<noteq> []" by (simp add: fl)
  from enrich_article_content_in_place [where s = store0 and r = 0 and page = page_long
      and ps = ?ps] f pl ne
  have long: "enrich_article_content page_long store0 0 =
     (\<lparr>objects = (objects store0)(0 := art_q
         \<lparr>content := Some (replicate 1500 CHR ''a'' @ [CHR 0x0A, CHR 0x0A] @ replicate 498 CHR ''b'')\<rparr>),
       requested = [''u/q'']\<rparr>, 0)"
    unfolding tl by (simp add: o)
  have ps: "page_response net_feed_pages (url (objects store0 0)) = Response [''PayPal shares rose'']"
    "filter (\<lambda>p. p \<noteq> []) [''PayPal shares rose''] \<noteq> []"
    "take 2000 (join [CHR 0x0A, CHR 0x0A] (filter (\<lambda>p. p \<noteq> []) [''PayPal shares rose'']))
       = ''PayPal shares rose''"
    by (simp_all add: o example_fields)
  from enrich_article_content_in_place [where s = store0 and r = 0
      and page = "page_response net_feed_pages" and ps = "[''PayPal shares rose'']"] f ps(1,2)
  have one: "enrich_article_content (page_response net_feed_pages) store0 0 = (?s1, 0)"
    unfolding ps(3) by (simp add: o)
  have p: "\<not> falsy (content (objects ?s1 0))" by simp
  from enrich_article_content_in_place [where s = ?s1 and r = 0
      and page = "page_response net_feed_pages"] p
  have two: "enrich_article_content (page_response net_feed_pages) ?s1 0 = (?s1, 0)"
    by blast
  have n: "page_response net_feed (url (objects store0 0)) = RequestFailed"
    by (simp add: example_fields)
  from enrich_article_content_in_place [where s = store0 and r = 0
      and page = "page_response net_feed"] f n
  have three: "enrich_article_content (page_response net_feed) store0 0 =
     (\<lparr>objects = objects store0, requested = [''u/q'']\<rparr>, 0)"
    by (simp add: o)
  have four: "objects ?s1 1 = art_q" by (simp add: store0_def)
  have len: "length (replicate 1500 CHR ''a'' @ [CHR 0x0A, CHR 0x0A] @ replicate 498 CHR ''b'') = 2000"
    by simp
  from f pl ne ll long len one four p two n three show ?thesis by blast
qed

section \<open>Loading the history\<close>

text \<open>
  C3, as the code has it. When the text of the state file is no JSON, constructing the
  \<open>StateStore\<close> logs one warning and starts from an empty history; when the file is
  missing it starts from an empty history without a warning; when the file cannot be
  read, the exception of \<open>read_text\<close> leaves the constructor.
\<close>

theorem StateStore_init_recovery:
  "(fs p = Malformed \<or> (\<exists>d. fs p = Markdown d) \<longrightarrow>
      StateStore_init fs p =
        Inr (\<lparr>store_path = p, store_data = JDict Map.empty\<rparr>,
             [(WARNING, ''Could not parse state file %s: %s'')]) \<and>
      seen_ids \<lparr>store_path = p, store_data = JDict Map.empty\<rparr> = Inr {}) \<and>
   (fs p = Missing \<longrightarrow>
      StateStore_init fs p = Inr (\<lparr>store_path = p, store_data = JDict Map.empty\<rparr>, []) \<and>
      seen_ids \<lparr>store_path = p, store_data = JDict Map.empty\<rparr> = Inr {}) \<and>
   (fs p = Unreadable e \<longrightarrow> StateStore_init fs p = Inl e)"
  by (auto simp: StateStore_init_def StateStore_load_def seen_ids_def)

theorem StateStore_init_recovery_witness:
  "(files0(state_file cfg0 := Malformed)) (state_file cfg0) = Malformed \<and>
   StateStore_init (files0(state_file cfg0 := Malformed)) (state_file cfg0) =
     Inr (\<lparr>store_path = state_file cfg0, store_data = JDict Map.empty\<rparr>,
          [(WARNING, ''Could not parse state file %s: %s'')]) \<and>
   files0 (state_file cfg0) = Missing \<and>
   StateStore_init files0 (state_file cfg0) =
     Inr (\<lparr>store_path = state_file cfg0, store_data = JDict Map.empty\<rparr>, []) \<and>
   seen_ids \<lparr>store_path = state_file cfg0, store_data = JDict Map.empty\<rparr> = Inr {}"
proof -
  have a: "(files0(state_file cfg0 := Malformed)) (state_file cfg0) = Malformed" by simp
  have b: "files0 (state_file cfg0) = Missing" by (simp add: files0_def)
  from StateStore_init_recovery [of "files0(state_file cfg0 := Malformed)" "state_file cfg0"] a
    StateStore_init_recovery [of files0 "state_file cfg0"] b
  show ?thesis by simp
qed

text \<open>
  C3 as stated fails: for a state file that exists and cannot be read, \<open>read_text\<close>
  raises an \<open>OSError\<close>, which \<open>except json.JSONDecodeError\<close> does not catch.
\<close>

theorem StateStore_init_unreadable_counterexample:
  "StateStore_init (files0(state_file cfg0 := Unreadable OSError)) (state_file cfg0) = Inl OSError"
  by (simp add: StateStore_init_def StateStore_load_def)

section \<open>A run without items\<close>

text \<open>
  Through \<open>run\<close>, a run that renders no item writes no report; it rewrites the state
  file with the history it loaded, so that the recorded identities are the same.
\<close>

lemma run_without_items:
  assumes "run ex net config fs = Inr (res, fs')" "items (digest res) = []"
  shows "\<exists>v. fs' = fs(state_file config := Parsed v) \<and>
             recorded (Parsed v) = recorded (fs (state_file config))"
proof -
  from assms have b: "build_digest ex net config fs = Inr (res, fs')"
    by (auto simp: run_def split: sum.splits if_splits)
  from build_digest_summary [OF b] obtain sorted_fresh v where
    ids: "new_article_ids res = map id_of (rendered net sorted_fresh)" and
    its: "items (digest res) = map (item_of ex) (rendered net sorted_fresh)" and
    fs': "fs' = fs(state_file config := Parsed v)" and
    rec: "recorded (Parsed v) = recorded (fs (state_file config)) \<union> set (new_article_ids res)"
    by blast
  from its assms(2) have "rendered net sorted_fresh = []" by simp
  with ids have "new_article_ids res = []" by simp
  with fs' rec show ?thesis by auto
qed




section \<open>The order of the report\<close>

text \<open>
  When the sort returns, its result holds the same articles in descending order of
  their keys, an article without a timestamp having the least key there is.
\<close>

lemma sort_published_descending:
  assumes "sort_published arts = Inr ys"
  shows "set ys = set arts \<and> length ys = length arts \<and>
         sorted (rev (map (\<lambda>a. instant (published_key a)) ys))"
proof -
  from assms have ys: "ys = rev (sort_key (\<lambda>a. instant (published_key a)) (rev arts))"
    by (auto simp: sort_published_def Let_def split: if_splits)
  then show ?thesis
    by (simp add: rev_map [symmetric])
qed

lemma collect_dated: "collect_articles ex0 net_dated cfg0 None = [art_A, art_B]"
proof -
  have r: "is_relevant art_A" "is_relevant art_B" by code_simp+
  have a: "GoogleNewsFetcher_article ex0 entry_A = Some art_A"
    by (simp add: GoogleNewsFetcher_article_def entry_A_def art_A_def ex0_def canonical_id_def
        parse_datetime_def)
  have b: "GoogleNewsFetcher_article ex0 entry_B = Some art_B"
    by (simp add: GoogleNewsFetcher_article_def entry_B_def art_B_def ex0_def canonical_id_def)
  have c: "id_of art_B \<noteq> id_of art_A" by (simp add: art_A_def art_B_def)
  show ?thesis
    using a b c r
    by (simp add: collect_articles_def fetchers_or_default_def default_fetchers_def net_dated_def
        NewsAPIFetcher_fetch_def GoogleNewsFetcher_fetch_def PYMNTSFetcher_fetch_def
        List.map_filter_simps)
qed

text \<open>
  C5 fails on the code. With timestamps that carry no zone the order is A, C, B. With
  aware timestamps, as the sources give them, the key \<open>datetime.min\<close> of the article
  without a timestamp is naive and the others are aware: the sort raises \<open>TypeError\<close>,
  and so does \<open>build_digest\<close> on a feed with one dated and one undated entry.
\<close>

theorem sort_published_raises:
  "sort_published [naive_of art_B, naive_of art_C, naive_of art_A]
     = Inr [naive_of art_A, naive_of art_C, naive_of art_B] \<and>
   sort_published [art_A, art_B, art_C] = Inl TypeError \<and>
   build_digest ex0 net_dated cfg0 files0 = Inl TypeError"
proof -
  have a: "sort_published [naive_of art_B, naive_of art_C, naive_of art_A]
     = Inr [naive_of art_A, naive_of art_C, naive_of art_B]"
    by (simp add: sort_published_def published_key_def naive_of_def art_A_def art_B_def art_C_def
        datetime_min_def)
  have b: "sort_published [art_A, art_B, art_C] = Inl TypeError"
    by (simp add: sort_published_def published_key_def art_A_def art_B_def art_C_def
        datetime_min_def)
  have c: "sort_published [art_A, art_B] = Inl TypeError"
    by (simp add: sort_published_def published_key_def art_A_def art_B_def datetime_min_def)
  have d: "build_digest ex0 net_dated cfg0 files0 = Inl TypeError"
    using c
    by (simp add: build_digest_def collect_dated StateStore_init_def StateStore_load_def files0_def
        seen_ids_def)
  from a b d show ?thesis by simp
qed

end
